theory Spec2Isabelle
  imports Complex_Main "HOL-Library.Word"
begin

unbundle bit_operations_syntax

section \<open>Python values used by the BMS protocol code\<close>

text \<open>
  The program is \<^verbatim>\<open>src/battery.py\<close> (class \<^verbatim>\<open>BatteryInfo\<close>) together with
  \<^verbatim>\<open>Request._create_command\<close> of \<^verbatim>\<open>src/request.py\<close>. A \<^verbatim>\<open>bytearray\<close> is a list
  of 8-bit words, a Python \<^verbatim>\<open>int\<close> is an \<open>int\<close>, a \<^verbatim>\<open>str\<close> is a \<open>string\<close>.
  An exception is a value of \<open>error\<close>; a method that mutates the instance returns the
  exception it raised (if any) together with the instance as it is at that moment, because
  attribute assignments made before a \<^verbatim>\<open>raise\<close> stay in place.
\<close>

type_synonym byte = "8 word"

datatype error = IndexError | ValueError | TypeError

type_synonym 's outcome = "error option \<times> 's"

definition and_then :: "'s outcome \<Rightarrow> ('s \<Rightarrow> 's outcome) \<Rightarrow> 's outcome" where
  "and_then r f = (case fst r of None \<Rightarrow> f (snd r) | Some e \<Rightarrow> r)"

subsection \<open>Slices, \<^verbatim>\<open>int.from_bytes\<close>, \<^verbatim>\<open>hex\<close>, \<^verbatim>\<open>str\<close>\<close>

text \<open>\<^verbatim>\<open>xs[a:b]\<close> for literal bounds \<open>0 \<le> a \<le> b\<close>: never raises, it is cut at the end of \<open>xs\<close>.\<close>

definition py_slice :: "nat \<Rightarrow> nat \<Rightarrow> 'a list \<Rightarrow> 'a list" where
  "py_slice a b xs = take (b - a) (drop a xs)"

text \<open>\<^verbatim>\<open>xs[-1:]\<close> and \<^verbatim>\<open>xs[:-1]\<close>.\<close>

definition last_slice :: "'a list \<Rightarrow> 'a list" where
  "last_slice xs = drop (length xs - 1) xs"

definition init_slice :: "'a list \<Rightarrow> 'a list" where
  "init_slice xs = take (length xs - 1) xs"

text \<open>\<^verbatim>\<open>xs[0::2]\<close>: every second element, starting with the first.\<close>

fun stride2 :: "'a list \<Rightarrow> 'a list" where
  "stride2 [] = []"
| "stride2 [x] = [x]"
| "stride2 (x # y # xs) = x # stride2 xs"

text \<open>\<^verbatim>\<open>int.from_bytes(bs, byteorder="big")\<close>; the empty sequence gives 0.\<close>

definition from_bytes_big :: "byte list \<Rightarrow> int" where
  "from_bytes_big bs = foldl (\<lambda>acc b. acc * 256 + uint b) 0 bs"

text \<open>\<^verbatim>\<open>int.from_bytes(bs, byteorder="big", signed=True)\<close>: two's complement on \<open>8 * len(bs)\<close> bits.\<close>

definition from_bytes_big_signed :: "byte list \<Rightarrow> int" where
  "from_bytes_big_signed bs =
     (let u = from_bytes_big bs in
      if bs \<noteq> [] \<and> 2 ^ (8 * length bs - 1) \<le> u then u - 2 ^ (8 * length bs) else u)"

definition from_bytes_little :: "byte list \<Rightarrow> int" where
  "from_bytes_little bs = from_bytes_big (rev bs)"

definition hexdigit :: "nat \<Rightarrow> char" where
  "hexdigit n = ''0123456789abcdef'' ! n"

text \<open>\<^verbatim>\<open>bytes.hex()\<close>: two lower-case digits per byte.\<close>

definition hex :: "byte list \<Rightarrow> string" where
  "hex bs = concat (map (\<lambda>b. [hexdigit (unat b div 16), hexdigit (unat b mod 16)]) bs)"

fun str_nat :: "nat \<Rightarrow> string" where
  "str_nat n = (if n < 10 then [hexdigit n] else str_nat (n div 10) @ [hexdigit (n mod 10)])"

declare str_nat.simps [simp del]

text \<open>\<^verbatim>\<open>str(i)\<close>, as an f-string formats an int.\<close>

definition str_int :: "int \<Rightarrow> string" where
  "str_int i = (if i < 0 then CHR ''-'' # str_nat (nat (- i)) else str_nat (nat i))"

text \<open>\<^verbatim>\<open>ord(c)\<close>: \<open>'0'\<close> is 48, \<open>'A'\<close> is 65, \<open>'a'\<close> is 97.\<close>

definition code_point :: "char \<Rightarrow> nat" where
  "code_point c = of_char c"

text \<open>
  \<^verbatim>\<open>int(c)\<close> for a one-character string \<open>c\<close> taken from a \<^verbatim>\<open>hex()\<close> string: base 10, so
  the letters \<open>a\<close> to \<open>f\<close> raise \<^verbatim>\<open>ValueError\<close>.
\<close>

definition int_of_digit :: "char \<Rightarrow> error + int" where
  "int_of_digit c =
     (if 48 \<le> code_point c \<and> code_point c \<le> 57 then Inr (int (code_point c) - 48)
      else Inl ValueError)"

subsection \<open>Python floats\<close>

text \<open>
  A finite Python \<^verbatim>\<open>float\<close> is the rational number it denotes (negative zero is not
  told apart from zero). \<open>rnd64\<close> rounds a rational to the nearest IEEE 754 binary64
  value, ties to even, with gradual underflow; magnitudes of \<open>2 ^ 1024\<close> and more, where
  Python overflows, do not occur in this program (its operands are 32-bit fields divided
  by constants).
\<close>

type_synonym pyfloat = rat

definition round_half_even :: "rat \<Rightarrow> int" where
  "round_half_even x =
     (let f = \<lfloor>x\<rfloor>; d = x - of_int f in
      if d < 1 / 2 then f else if 1 / 2 < d then f + 1 else if even f then f else f + 1)"

definition pow2 :: "int \<Rightarrow> rat" where
  "pow2 e = (if 0 \<le> e then 2 ^ nat e else 1 / 2 ^ nat (- e))"

fun bitlen_nat :: "nat \<Rightarrow> nat" where
  "bitlen_nat n = (if n = 0 then 0 else Suc (bitlen_nat (n div 2)))"

declare bitlen_nat.simps [simp del]

text \<open>For \<open>0 < x\<close>: the exponent \<open>e\<close> with \<open>2 ^ e \<le> x < 2 ^ (e + 1)\<close>.\<close>

definition ilog2 :: "rat \<Rightarrow> int" where
  "ilog2 x =
     (let (p, q) = quotient_of x;
          d = int (bitlen_nat (nat p)) - int (bitlen_nat (nat q))
      in if pow2 d \<le> x then d else d - 1)"

definition rnd64 :: "rat \<Rightarrow> pyfloat" where
  "rnd64 x =
     (if x = 0 then 0
      else let e = max (ilog2 \<bar>x\<bar>) (- 1022); q = e - 52
           in of_int (round_half_even (x / pow2 q)) * pow2 q)"

text \<open>\<^verbatim>\<open>a / b\<close> on two ints with \<open>b \<noteq> 0\<close> (every divisor in the program is a nonzero literal).\<close>

definition py_truediv :: "int \<Rightarrow> int \<Rightarrow> pyfloat" where
  "py_truediv a b = rnd64 (of_int a / of_int b)"

text \<open>\<^verbatim>\<open>x / n\<close> on a float and a nonzero int literal.\<close>

definition py_fdiv :: "pyfloat \<Rightarrow> int \<Rightarrow> pyfloat" where
  "py_fdiv x n = rnd64 (x / of_int n)"

text \<open>
  \<^verbatim>\<open>round(x, nd)\<close> on a float: the float nearest to the decimal with \<open>nd\<close> fractional
  digits that is nearest to the exact value of \<open>x\<close> (ties to the even digit).
\<close>

definition py_round :: "pyfloat \<Rightarrow> nat \<Rightarrow> pyfloat" where
  "py_round x nd = rnd64 (of_int (round_half_even (x * 10 ^ nd)) / 10 ^ nd)"

subsection \<open>Dictionaries in insertion order\<close>

text \<open>
  \<^verbatim>\<open>d[k] = v\<close>: an existing key keeps its place and gets the new value, a new key goes to
  the end.
\<close>

fun dict_set :: "('k \<times> 'v) list \<Rightarrow> 'k \<Rightarrow> 'v \<Rightarrow> ('k \<times> 'v) list" where
  "dict_set [] k v = [(k, v)]"
| "dict_set ((k', v') # kvs) k v =
     (if k' = k then (k, v) # kvs else (k', v') # dict_set kvs k v)"

section \<open>Frame codec\<close>

text \<open>\<^verbatim>\<open>BatteryInfo.crc_sum\<close>: \<^verbatim>\<open>sum(raw_data) & 0xFF\<close>.\<close>

definition crc_sum :: "byte list \<Rightarrow> int" where
  "crc_sum raw_data = sum_list (map uint raw_data) AND 0xFF"

text \<open>\<^verbatim>\<open>BatteryInfo.pq_commands\<close>, in the order of the source.\<close>

definition pq_commands :: "(string \<times> string) list" where
  "pq_commands =
     [(''GET_VERSION'', ''00 00 04 01 16 55 AA 1A''),
      (''GET_BATTERY_INFO'', ''00 00 04 01 13 55 AA 17''),
      (''SERIAL_NUMBER'', ''00 00 04 01 10 55 AA 14'')]"

text \<open>\<^verbatim>\<open>command.split(" ")\<close>.\<close>

fun split_space :: "string \<Rightarrow> string list" where
  "split_space [] = [[]]"
| "split_space (c # cs) =
     (if c = CHR '' '' then [] # split_space cs
      else (case split_space cs of w # ws \<Rightarrow> (c # w) # ws | [] \<Rightarrow> [[c]]))"

definition hex_value :: "char \<Rightarrow> int option" where
  "hex_value c =
     (if 48 \<le> code_point c \<and> code_point c \<le> 57 then Some (int (code_point c) - 48)
      else if 97 \<le> code_point c \<and> code_point c \<le> 102 then Some (int (code_point c) - 87)
      else if 65 \<le> code_point c \<and> code_point c \<le> 70 then Some (int (code_point c) - 55)
      else None)"

fun hex_digits :: "int \<Rightarrow> string \<Rightarrow> error + int" where
  "hex_digits acc [] = Inr acc"
| "hex_digits acc (c # cs) =
     (case hex_value c of None \<Rightarrow> Inl ValueError | Some d \<Rightarrow> hex_digits (acc * 16 + d) cs)"

text \<open>
  \<^verbatim>\<open>int(el, 16)\<close> on a string of plain hexadecimal digits, which is all the command
  templates hold; anything else is \<^verbatim>\<open>ValueError\<close> here (Python also accepts a sign, a
  \<^verbatim>\<open>0x\<close> prefix, underscores and surrounding blanks).
\<close>

definition int16 :: "string \<Rightarrow> error + int" where
  "int16 el = (if el = [] then Inl ValueError else hex_digits 0 el)"

fun command_bytes :: "string list \<Rightarrow> error + int list" where
  "command_bytes [] = Inr []"
| "command_bytes (el # els) =
     (case int16 el of
        Inl e \<Rightarrow> Inl e
      | Inr v \<Rightarrow> (case command_bytes els of Inl e \<Rightarrow> Inl e | Inr vs \<Rightarrow> Inr (v # vs)))"

text \<open>
  \<^verbatim>\<open>Request._create_command\<close>: the list comprehension, then \<^verbatim>\<open>bytearray(...)\<close>, which
  raises \<^verbatim>\<open>ValueError\<close> on an element outside \<open>0..255\<close>.
\<close>

definition create_command :: "string \<Rightarrow> error + byte list" where
  "create_command command =
     (case command_bytes (split_space command) of
        Inl e \<Rightarrow> Inl e
      | Inr vs \<Rightarrow> if \<forall>v \<in> set vs. 0 \<le> v \<and> v < 256 then Inr (map word_of_int vs)
                 else Inl ValueError)"

section \<open>The \<^verbatim>\<open>BatteryInfo\<close> instance\<close>

text \<open>
  The attributes that \<^verbatim>\<open>__init__\<close> creates, without the logger, the request object and
  the debug flag. \<^verbatim>\<open>None\<close> is \<open>None\<close>. The last field, \<open>error\<close>, is the attribute of
  that name, which \<^verbatim>\<open>__init__\<close> does not create: \<open>None\<close> means that the instance has
  no such attribute. The entries of \<^verbatim>\<open>failureState\<close> are the ints of the bytes.
\<close>

record BatteryInfo =
  packVoltage :: "int option"
  voltage :: "int option"
  batteryPack :: "(int \<times> pyfloat) list"
  current :: "pyfloat option"
  watt :: "pyfloat option"
  remainAh :: "pyfloat option"
  factoryAh :: "pyfloat option"
  cellTemperature :: "int option"
  mosfetTemperature :: "int option"
  heat :: "string option"
  protectState :: "string option"
  failureState :: "int list option"
  equilibriumState :: "int option"
  batteryState :: "int option"
  SOC :: "int option"
  SOH :: "int option"
  dischargeSwitchState :: "int option"
  dischargesCount :: "int option"
  dischargesAHCount :: "int option"
  firmwareVersion :: "string option"
  manfactureDate :: "string option"
  hardwareVersion :: "string option"
  battery_status :: "string option"
  balance_status :: "string option"
  cell_status :: "string option"
  bms_status :: "string option"
  heat_status :: "string option"
  error_code :: int
  error_message :: "string option"
  error :: "int option"

definition ERROR_GENERIC :: int where "ERROR_GENERIC = 1"
definition ERROR_TIMEOUT :: int where "ERROR_TIMEOUT = 2"
definition ERROR_BLEAK :: int where "ERROR_BLEAK = 4"
definition ERROR_CHECKSUM :: int where "ERROR_CHECKSUM = 6"

text \<open>\<^verbatim>\<open>BatteryInfo.__init__\<close>.\<close>

definition new_BatteryInfo :: BatteryInfo where
  "new_BatteryInfo =
     \<lparr>packVoltage = None, voltage = None, batteryPack = [], current = None, watt = None,
      remainAh = None, factoryAh = None, cellTemperature = None, mosfetTemperature = None,
      heat = None, protectState = None, failureState = None, equilibriumState = None,
      batteryState = None, SOC = None, SOH = None, dischargeSwitchState = None,
      dischargesCount = None, dischargesAHCount = None, firmwareVersion = None,
      manfactureDate = None, hardwareVersion = None, battery_status = None,
      balance_status = None, cell_status = None, bms_status = None, heat_status = None,
      error_code = 0, error_message = None, error = None\<rparr>"

section \<open>The checksum decorator\<close>

definition crc_packet :: "byte list \<Rightarrow> int" where
  "crc_packet raw_data = from_bytes_little (last_slice raw_data)"

definition data_crc :: "byte list \<Rightarrow> int" where
  "data_crc raw_data = crc_sum (init_slice raw_data)"

text \<open>The test \<^verbatim>\<open>crc_packet != data_crc\<close> of the wrapper.\<close>

definition checksum_mismatch :: "byte list \<Rightarrow> bool" where
  "checksum_mismatch raw_data = (crc_packet raw_data \<noteq> data_crc raw_data)"

text \<open>
  \<^verbatim>\<open>BatteryInfo._check_crc\<close>: \<open>check_crc name func\<close> is the wrapper around \<open>func\<close>, whose
  \<^verbatim>\<open>__name__\<close> is \<open>name\<close>. The call of the logger is left out. On a mismatch the wrapper
  assigns the attributes \<^verbatim>\<open>error\<close> and \<^verbatim>\<open>error_message\<close>; then it calls \<open>func\<close> in
  either case.
\<close>

definition check_crc ::
  "string \<Rightarrow> (BatteryInfo \<Rightarrow> byte list \<Rightarrow> BatteryInfo outcome) \<Rightarrow>
   BatteryInfo \<Rightarrow> byte list \<Rightarrow> BatteryInfo outcome" where
  "check_crc name func self raw_data =
     (let debug_message =
            ''of '' @ name @ '': data:'' @ str_int (data_crc raw_data) @
            '', crc-packet:'' @ str_int (crc_packet raw_data);
          self' =
            (if checksum_mismatch raw_data
             then self\<lparr>error := Some ERROR_CHECKSUM,
                       error_message := Some (''Error: checksum missmatch '' @ debug_message)\<rparr>
             else self)
      in func self' raw_data)"

section \<open>Status classifier\<close>

text \<open>
  \<^verbatim>\<open>BatteryInfo.get_battery_status\<close>. With \<^verbatim>\<open>current\<close> or \<^verbatim>\<open>SOC\<close> still \<^verbatim>\<open>None\<close> the
  comparisons \<^verbatim>\<open>None > 0\<close> and \<^verbatim>\<open>None >= 100\<close> raise \<^verbatim>\<open>TypeError\<close>;
  \<^verbatim>\<open>None == 4\<close> is just false.
\<close>

definition get_battery_status :: "BatteryInfo \<Rightarrow> error + string" where
  "get_battery_status self =
     (case current self of
        None \<Rightarrow> Inl TypeError
      | Some c \<Rightarrow>
          (let status =
                 (if c = 0 then ''Standby''
                  else if 0 < c then ''Charging''
                  else if c < 0 then ''Discharging''
                  else [])
           in case SOC self of
                None \<Rightarrow> Inl TypeError
              | Some soc \<Rightarrow>
                  Inr (if 100 \<le> soc \<or> batteryState self = Some 4 then ''Full Charge''
                       else status)))"

section \<open>Response decoder: battery info\<close>

text \<open>Lines 567 and 568 of \<^verbatim>\<open>parse_battery_info\<close>.\<close>

definition parse_voltages :: "BatteryInfo \<Rightarrow> byte list \<Rightarrow> BatteryInfo" where
  "parse_voltages self data =
     self\<lparr>packVoltage := Some (from_bytes_big (rev (py_slice 8 12 data))),
          voltage := Some (from_bytes_big (rev (py_slice 12 16 data)))\<rparr>"

text \<open>
  The loop of lines 571 to 579 over \<^verbatim>\<open>enumerate(batPack)\<close>, on the dictionary
  \<^verbatim>\<open>self.batteryPack\<close>. \<^verbatim>\<open>batPack[key + 1]\<close> raises \<^verbatim>\<open>IndexError\<close> past the end.
  \<^verbatim>\<open>int(key / 2 + 1)\<close> is \<open>key div 2 + 1\<close> (the float arithmetic is exact on these small
  even numbers).
\<close>

fun cells_loop ::
  "byte list \<Rightarrow> (nat \<times> byte) list \<Rightarrow> (int \<times> pyfloat) list \<Rightarrow>
   error option \<times> (int \<times> pyfloat) list" where
  "cells_loop batPack [] pack = (None, pack)"
| "cells_loop batPack ((key, dt) # rest) pack =
     (if key mod 2 \<noteq> 0 then cells_loop batPack rest pack
      else if length batPack \<le> key + 1 then (Some IndexError, pack)
      else
        (let cellVoltage = from_bytes_big [batPack ! (key + 1), dt] in
         if cellVoltage = 0 then cells_loop batPack rest pack
         else cells_loop batPack rest
                (dict_set pack (int (key div 2 + 1)) (py_truediv cellVoltage 1000))))"

text \<open>
  For stating what the loop does: the assignments \<^verbatim>\<open>self.batteryPack[cell] = ...\<close> that
  a run over \<open>es\<close> without \<^verbatim>\<open>IndexError\<close> makes, in order.
\<close>

definition cell_updates :: "byte list \<Rightarrow> (nat \<times> byte) list \<Rightarrow> (int \<times> pyfloat) list" where
  "cell_updates batPack es =
     map (\<lambda>(key, dt). (int (key div 2 + 1),
            py_truediv (from_bytes_big [batPack ! (key + 1), dt]) 1000))
       (filter (\<lambda>(key, dt). even key \<and> from_bytes_big [batPack ! (key + 1), dt] \<noteq> 0) es)"

definition parse_cells :: "BatteryInfo \<Rightarrow> byte list \<Rightarrow> BatteryInfo outcome" where
  "parse_cells self data =
     (let batPack = py_slice 16 48 data;
          r = cells_loop batPack (enumerate 0 batPack) (batteryPack self)
      in (fst r, self\<lparr>batteryPack := snd r\<rparr>))"

text \<open>
  Lines 582 to 606: current, power, capacities, temperatures, heat flags. The product
  \<^verbatim>\<open>self.voltage * +current\<close> is a product of ints; \<^verbatim>\<open>None * int\<close> would be a
  \<^verbatim>\<open>TypeError\<close>. The unused local \<^verbatim>\<open>s = pow(2, 16)\<close> is left out.
\<close>

definition parse_measurements :: "BatteryInfo \<Rightarrow> byte list \<Rightarrow> BatteryInfo outcome" where
  "parse_measurements self data =
     (let current_mA = from_bytes_big_signed (rev (py_slice 48 52 data));
          self1 = self\<lparr>current := Some (py_round (py_truediv current_mA 1000) 2)\<rparr>
      in case voltage self1 of
           None \<Rightarrow> (Some TypeError, self1)
         | Some v \<Rightarrow>
             (let watt' = py_fdiv (py_round (py_truediv (v * current_mA) 10000) 1) 100;
                  remainAh' = from_bytes_big (rev (py_slice 62 64 data));
                  fccAh = from_bytes_big (rev (py_slice 64 66 data))
              in (None,
                  self1\<lparr>watt := Some (py_round watt' 2),
                        remainAh := Some (py_round (py_truediv remainAh' 100) 2),
                        factoryAh := Some (py_round (py_truediv fccAh 100) 2),
                        cellTemperature := Some (from_bytes_big_signed (rev (py_slice 52 54 data))),
                        mosfetTemperature := Some (from_bytes_big_signed (rev (py_slice 54 56 data))),
                        heat := Some (hex (rev (py_slice 68 72 data)))\<rparr>)))"

text \<open>Lines 610 to 613: \<^verbatim>\<open>int(self.heat[6]) >= 8\<close>.\<close>

definition parse_discharge_switch :: "BatteryInfo \<Rightarrow> BatteryInfo outcome" where
  "parse_discharge_switch self =
     (case heat self of
        None \<Rightarrow> (Some TypeError, self)
      | Some h \<Rightarrow>
          if length h \<le> 6 then (Some IndexError, self)
          else (case int_of_digit (h ! 6) of
                  Inl e \<Rightarrow> (Some e, self)
                | Inr d \<Rightarrow>
                    (None, self\<lparr>dischargeSwitchState := Some (if 8 \<le> d then 0 else 1)\<rparr>)))"

text \<open>Lines 615 to 634.\<close>

definition parse_states :: "BatteryInfo \<Rightarrow> byte list \<Rightarrow> BatteryInfo" where
  "parse_states self data =
     self\<lparr>protectState := Some (hex (rev (py_slice 76 80 data))),
          failureState := Some (map uint (rev (py_slice 80 84 data))),
          equilibriumState := Some (from_bytes_big (rev (py_slice 84 88 data))),
          batteryState := Some (from_bytes_big (rev (py_slice 88 90 data))),
          SOC := Some (from_bytes_big (rev (py_slice 90 92 data))),
          SOH := Some (from_bytes_big (rev (py_slice 92 96 data))),
          dischargesCount := Some (from_bytes_big (rev (py_slice 96 100 data))),
          dischargesAHCount := Some (from_bytes_big (rev (py_slice 100 104 data)))\<rparr>"

text \<open>Line 637.\<close>

definition set_battery_status :: "BatteryInfo \<Rightarrow> BatteryInfo outcome" where
  "set_battery_status self =
     (case get_battery_status self of
        Inl e \<Rightarrow> (Some e, self)
      | Inr status \<Rightarrow> (None, self\<lparr>battery_status := Some status\<rparr>))"

text \<open>Lines 639 to 644.\<close>

definition set_balance_status :: "BatteryInfo \<Rightarrow> BatteryInfo outcome" where
  "set_balance_status self =
     (case equilibriumState self of
        None \<Rightarrow> (Some TypeError, self)
      | Some eq \<Rightarrow>
          (None,
           self\<lparr>balance_status :=
                  Some (if 0 < eq
                        then ''Battery cells are being balanced for better performance.''
                        else ''All cells are well-balanced.'')\<rparr>))"

text \<open>
  Lines 646 to 649: \<^verbatim>\<open>self.failureState[0] > 0 or self.failureState[1] > 0\<close>, the second
  index being evaluated only when the first comparison is false.
\<close>

definition set_cell_status :: "BatteryInfo \<Rightarrow> BatteryInfo outcome" where
  "set_cell_status self =
     (case failureState self of
        None \<Rightarrow> (Some TypeError, self)
      | Some fs \<Rightarrow>
          if length fs \<le> 0 then (Some IndexError, self)
          else if 0 < fs ! 0
          then (None, self\<lparr>cell_status := Some ''Fault alert! There may be a problem with cell.''\<rparr>)
          else if length fs \<le> 1 then (Some IndexError, self)
          else if 0 < fs ! 1
          then (None, self\<lparr>cell_status := Some ''Fault alert! There may be a problem with cell.''\<rparr>)
          else (None, self\<lparr>cell_status := Some ''Battery is in optimal working condition.''\<rparr>))"

text \<open>Lines 651 to 654: \<^verbatim>\<open>int(self.heat[7]) == 2\<close>.\<close>

definition set_heat_status :: "BatteryInfo \<Rightarrow> BatteryInfo outcome" where
  "set_heat_status self =
     (case heat self of
        None \<Rightarrow> (Some TypeError, self)
      | Some h \<Rightarrow>
          if length h \<le> 7 then (Some IndexError, self)
          else (case int_of_digit (h ! 7) of
                  Inl e \<Rightarrow> (Some e, self)
                | Inr d \<Rightarrow>
                    (None,
                     self\<lparr>heat_status :=
                            Some (if d = 2 then ''Self-heating is on''
                                  else ''Self-heating is off'')\<rparr>)))"

text \<open>Lines 637 to 654: the four human-readable statuses, in the order of the source.\<close>

definition parse_statuses :: "BatteryInfo \<Rightarrow> BatteryInfo outcome" where
  "parse_statuses self =
     and_then (set_battery_status self) (\<lambda>self.
     and_then (set_balance_status self) (\<lambda>self.
     and_then (set_cell_status self) set_heat_status))"

text \<open>The body of \<^verbatim>\<open>parse_battery_info\<close> (the \<^verbatim>\<open>func\<close> that the decorator wraps).\<close>

definition parse_battery_info_func :: "BatteryInfo \<Rightarrow> byte list \<Rightarrow> BatteryInfo outcome" where
  "parse_battery_info_func self data =
     and_then (parse_cells (parse_voltages self data) data) (\<lambda>self.
     and_then (parse_measurements self data) (\<lambda>self.
     and_then (parse_discharge_switch self) (\<lambda>self.
     parse_statuses (parse_states self data))))"

text \<open>\<^verbatim>\<open>BatteryInfo.parse_battery_info\<close>, as the class holds it: decorated.\<close>

definition parse_battery_info :: "BatteryInfo \<Rightarrow> byte list \<Rightarrow> BatteryInfo outcome" where
  "parse_battery_info = check_crc ''parse_battery_info'' parse_battery_info_func"

section \<open>Response decoder: version\<close>

text \<open>
  The body of \<^verbatim>\<open>parse_version\<close>. \<^verbatim>\<open>start[8]\<close> and \<^verbatim>\<open>start[9]\<close> raise
  \<^verbatim>\<open>IndexError\<close> on a short buffer, after \<^verbatim>\<open>firmwareVersion\<close> has been assigned.
\<close>

definition parse_version_func :: "BatteryInfo \<Rightarrow> byte list \<Rightarrow> BatteryInfo outcome" where
  "parse_version_func self data =
     (let start = drop 8 data;
          self1 = self\<lparr>firmwareVersion :=
                    Some (str_int (from_bytes_big (rev (py_slice 0 2 start))) @ ''.'' @
                          str_int (from_bytes_big (rev (py_slice 2 4 start))) @ ''.'' @
                          str_int (from_bytes_big (rev (py_slice 4 6 start))))\<rparr>
      in if length start \<le> 9 then (Some IndexError, self1)
         else
           (None,
            self1\<lparr>manfactureDate :=
                    Some (str_int (from_bytes_big (rev (py_slice 6 8 start))) @ ''-'' @
                          str_int (uint (start ! 8)) @ ''-'' @ str_int (uint (start ! 9))),
                  hardwareVersion :=
                    Some (map (\<lambda>ver. char_of (unat ver))
                           (filter (\<lambda>ver. 32 \<le> uint ver \<and> uint ver \<le> 126)
                              (stride2 start)))\<rparr>))"

definition parse_version :: "BatteryInfo \<Rightarrow> byte list \<Rightarrow> BatteryInfo outcome" where
  "parse_version = check_crc ''parse_version'' parse_version_func"

section \<open>Concrete frames and buffers\<close>

text \<open>The battery-info command frame, as \<^verbatim>\<open>_create_command\<close> yields it.\<close>

definition frame13 :: "byte list" where
  "frame13 = [0x00, 0x00, 0x04, 0x01, 0x13, 0x55, 0xAA, 0x17]"

text \<open>
  Battery-info buffers of 105 bytes (104 bytes and the checksum), all zero but for the
  bytes named: a wrong checksum byte; the letter digit \<open>a\<close> at index 6 of the heat
  string (byte 68 is 0xA0); state of charge 200 and 65535 (bytes 90 and 91); voltage
  4500 mV (bytes 12 to 15) with current 1 mA (bytes 48 to 51).
\<close>

definition buf_bad_crc :: "byte list" where
  "buf_bad_crc = replicate 104 0 @ [0x01]"

definition buf_hex_letter :: "byte list" where
  "buf_hex_letter = replicate 68 0 @ [0xA0] @ replicate 35 0 @ [0xA0]"

definition buf_soc200 :: "byte list" where
  "buf_soc200 = replicate 90 0 @ [0xC8] @ replicate 13 0 @ [0xC8]"

definition buf_soc_max :: "byte list" where
  "buf_soc_max = replicate 90 0 @ [0xFF, 0xFF] @ replicate 12 0 @ [0xFE]"

definition buf_watt :: "byte list" where
  "buf_watt = replicate 12 0 @ [0x94, 0x11] @ replicate 34 0 @ [0x01] @ replicate 55 0 @ [0xA6]"

text \<open>A buffer of 82 zero bytes: shorter than a battery-info response.\<close>

definition buf_short :: "byte list" where
  "buf_short = replicate 82 0"

text \<open>
  A battery-info buffer of 105 bytes with four cells of 3320 mV (bytes 16 to 23), all
  other bytes zero but the checksum.
\<close>

definition buf_cells :: "byte list" where
  "buf_cells =
     replicate 16 0 @ [0xF8, 0x0C, 0xF8, 0x0C, 0xF8, 0x0C, 0xF8, 0x0C] @ replicate 80 0 @ [0x10]"

section \<open>The float model: the exponent\<close>

lemma pow2_powi: "pow2 e = 2 powi e"
  by (simp add: pow2_def power_int_def inverse_eq_divide power_one_over)

lemma pow2_diff: "pow2 (int a - int b) = 2 ^ a / 2 ^ b"
  using power_int_diff [of "2 :: rat" "int a" "int b"] by (simp add: pow2_powi)

lemma bitlen_nat_bounds:
  "0 < n \<Longrightarrow> 2 ^ (bitlen_nat n - 1) \<le> n \<and> n < 2 ^ bitlen_nat n"
proof (induction n rule: bitlen_nat.induct)
  case (1 n)
  show ?case
  proof (cases "n div 2 = 0")
    case True
    with "1.prems" have "n = 1" by (simp add: div_eq_0_iff)
    then show ?thesis
      by (simp add: bitlen_nat.simps [of "Suc 0"] bitlen_nat.simps [of 0])
  next
    case False
    then have pos: "0 < n div 2" by simp
    from "1.IH" [OF _ pos] "1.prems" have
      ih: "2 ^ (bitlen_nat (n div 2) - 1) \<le> n div 2" "n div 2 < 2 ^ bitlen_nat (n div 2)"
      by simp_all
    have b: "bitlen_nat n = Suc (bitlen_nat (n div 2))"
      using "1.prems" by (simp add: bitlen_nat.simps [of n])
    have "0 < bitlen_nat (n div 2)"
      using pos by (simp add: bitlen_nat.simps [of "n div 2"])
    then have "(2 :: nat) ^ bitlen_nat (n div 2) = 2 * 2 ^ (bitlen_nat (n div 2) - 1)"
      by (cases "bitlen_nat (n div 2)") simp_all
    moreover have "2 * (n div 2) \<le> n" by simp
    ultimately have lo: "2 ^ bitlen_nat (n div 2) \<le> n" using ih(1) by linarith
    have "n < 2 * (n div 2) + 2" by presburger
    with ih(2) have hi: "n < 2 * 2 ^ bitlen_nat (n div 2)" by linarith
    from lo hi show ?thesis by (simp add: b)
  qed
qed

lemma ilog2_bounds:
  assumes "0 < x"
  shows "pow2 (ilog2 x) \<le> x \<and> x < pow2 (ilog2 x + 1)"
proof -
  obtain p q where pq: "quotient_of x = (p, q)" by (cases "quotient_of x")
  then have q: "0 < q" and x: "x = of_int p / of_int q"
    by (simp_all add: quotient_of_denom_pos quotient_of_div)
  from assms x q have p: "0 < p" by (simp add: zero_less_divide_iff)
  let ?a = "bitlen_nat (nat p)" and ?b = "bitlen_nat (nat q)"
  let ?d = "int ?a - int ?b"
  from bitlen_nat_bounds [of "nat p"] p have
    pa: "2 ^ (?a - 1) \<le> nat p" "nat p < 2 ^ ?a" by simp_all
  from bitlen_nat_bounds [of "nat q"] q have
    qb: "2 ^ (?b - 1) \<le> nat q" "nat q < 2 ^ ?b" by simp_all
  have a1: "0 < ?a" using p by (simp add: bitlen_nat.simps [of "nat p"])
  have b1: "0 < ?b" using q by (simp add: bitlen_nat.simps [of "nat q"])
  have rp: "(2 :: rat) ^ (?a - 1) \<le> of_int p" "of_int p < (2 :: rat) ^ ?a"
  proof -
    from pa(1) have "of_nat (2 ^ (?a - 1)) \<le> (of_nat (nat p) :: rat)"
      by (simp only: of_nat_le_iff)
    then show "(2 :: rat) ^ (?a - 1) \<le> of_int p" using p by simp
    from pa(2) have "(of_nat (nat p) :: rat) < of_nat (2 ^ ?a)"
      by (simp only: of_nat_less_iff)
    then show "of_int p < (2 :: rat) ^ ?a" using p by simp
  qed
  have rq: "(2 :: rat) ^ (?b - 1) \<le> of_int q" "of_int q < (2 :: rat) ^ ?b"
  proof -
    from qb(1) have "of_nat (2 ^ (?b - 1)) \<le> (of_nat (nat q) :: rat)"
      by (simp only: of_nat_le_iff)
    then show "(2 :: rat) ^ (?b - 1) \<le> of_int q" using q by simp
    from qb(2) have "(of_nat (nat q) :: rat) < of_nat (2 ^ ?b)"
      by (simp only: of_nat_less_iff)
    then show "of_int q < (2 :: rat) ^ ?b" using q by simp
  qed
  have qpos: "(0 :: rat) < of_int q" using q by simp
  have upper: "x < pow2 (?d + 1)"
  proof -
    have "pow2 (?d + 1) = 2 ^ ?a / 2 ^ (?b - 1)"
    proof -
      have "?d + 1 = int ?a - int (?b - 1)" using b1 by simp
      then show ?thesis by (simp only: pow2_diff)
    qed
    moreover have "x < 2 ^ ?a / 2 ^ (?b - 1)"
    proof -
      have "x * 2 ^ (?b - 1) \<le> x * of_int q"
        using rq(1) assms by (simp add: mult_left_mono)
      also have "\<dots> = of_int p" using qpos by (simp add: x)
      also have "\<dots> < 2 ^ ?a" by (rule rp(2))
      finally show ?thesis by (simp add: pos_less_divide_eq)
    qed
    ultimately show ?thesis by simp
  qed
  have lower: "pow2 (?d - 1) \<le> x"
  proof -
    have "pow2 (?d - 1) = 2 ^ (?a - 1) / 2 ^ ?b"
    proof -
      have "?d - 1 = int (?a - 1) - int ?b" using a1 by simp
      then show ?thesis by (simp only: pow2_diff)
    qed
    moreover have "2 ^ (?a - 1) / 2 ^ ?b \<le> x"
    proof -
      have "(2 :: rat) ^ (?a - 1) \<le> of_int p" by (rule rp(1))
      also have "\<dots> = x * of_int q" using qpos by (simp add: x)
      also have "\<dots> \<le> x * 2 ^ ?b"
        using rq(2) assms by (simp add: mult_left_mono)
      finally show ?thesis by (simp add: pos_divide_le_eq)
    qed
    ultimately show ?thesis by simp
  qed
  have e: "ilog2 x = (if pow2 ?d \<le> x then ?d else ?d - 1)"
    by (simp add: ilog2_def pq Let_def)
  show ?thesis
  proof (cases "pow2 ?d \<le> x")
    case True
    with upper show ?thesis by (simp add: e)
  next
    case False
    with lower show ?thesis by (simp add: e)
  qed
qed

section \<open>The float model: rounding\<close>

lemma round_half_even_near: "\<bar>of_int (round_half_even y) - y\<bar> \<le> 1 / 2"
proof -
  have "of_int \<lfloor>y\<rfloor> \<le> y" "y < of_int \<lfloor>y\<rfloor> + 1" by linarith+
  then show ?thesis
    by (auto simp: round_half_even_def Let_def abs_le_iff)
qed

lemma round_half_even_bounded:
  assumes "\<bar>y\<bar> \<le> of_int n"
  shows "\<bar>round_half_even y\<bar> \<le> n"
proof -
  from assms have lo: "- of_int n \<le> y" and hi: "y \<le> of_int n" by (simp_all add: abs_le_iff)
  from lo have "of_int (- n) \<le> y" by simp
  then have fl: "- n \<le> \<lfloor>y\<rfloor>" by (simp only: le_floor_iff)
  have up: "round_half_even y \<le> n"
  proof (cases "y = of_int n")
    case True
    then show ?thesis by (simp add: round_half_even_def)
  next
    case False
    with hi have "y < of_int n" by simp
    then have "\<lfloor>y\<rfloor> < n" by (simp add: floor_less_iff)
    then show ?thesis by (simp add: round_half_even_def Let_def)
  qed
  have "\<lfloor>y\<rfloor> \<le> round_half_even y" by (simp add: round_half_even_def Let_def)
  with fl up show ?thesis by (simp add: abs_le_iff)
qed

lemma pow2_pos: "0 < pow2 e"
  by (simp add: pow2_def)

lemma pow2_add: "pow2 (a + b) = pow2 a * pow2 b"
  by (simp add: pow2_powi power_int_add)

lemma pow2_mono: "a \<le> b \<Longrightarrow> pow2 a \<le> pow2 b"
  by (simp add: pow2_powi power_int_increasing)

text \<open>
  \<open>rnd64 x\<close> is a multiple \<open>m * 2 ^ q\<close> of the unit in the last place with a significand
  \<open>m\<close> of at most 53 bits, and it is no further from \<open>x\<close> than half that unit.
\<close>

lemma rnd64_nearest:
  assumes "x \<noteq> 0"
  defines "q \<equiv> max (ilog2 \<bar>x\<bar>) (- 1022) - 52"
  shows "\<exists>m. rnd64 x = of_int m * pow2 q \<and> \<bar>m\<bar> \<le> 2 ^ 53 \<and> \<bar>rnd64 x - x\<bar> \<le> pow2 q / 2"
proof -
  let ?m = "round_half_even (x / pow2 q)"
  have r: "rnd64 x = of_int ?m * pow2 q"
    using assms(1) by (simp add: rnd64_def q_def Let_def)
  have pos: "0 < pow2 q" by (rule pow2_pos)
  have "\<bar>of_int ?m - x / pow2 q\<bar> \<le> 1 / 2" by (rule round_half_even_near)
  then have "\<bar>of_int ?m - x / pow2 q\<bar> * pow2 q \<le> 1 / 2 * pow2 q"
    using pos by (simp only: mult_le_cancel_right_pos)
  moreover have "\<bar>of_int ?m - x / pow2 q\<bar> * pow2 q = \<bar>of_int ?m * pow2 q - x\<bar>"
  proof -
    have "\<bar>of_int ?m - x / pow2 q\<bar> * pow2 q = \<bar>(of_int ?m - x / pow2 q) * pow2 q\<bar>"
      using pos by (simp add: abs_mult)
    also have "(of_int ?m - x / pow2 q) * pow2 q = of_int ?m * pow2 q - x"
      using pos by (simp add: left_diff_distrib)
    finally show ?thesis .
  qed
  ultimately have err: "\<bar>rnd64 x - x\<bar> \<le> pow2 q / 2" by (simp add: r)
  have "0 < \<bar>x\<bar>" using assms(1) by simp
  from ilog2_bounds [OF this] have "\<bar>x\<bar> < pow2 (ilog2 \<bar>x\<bar> + 1)" by simp
  also have "\<dots> \<le> pow2 (q + 53)"
    by (rule pow2_mono) (simp add: q_def)
  also have "\<dots> = pow2 q * 2 ^ 53"
    by (simp add: pow2_add) (simp add: pow2_def)
  finally have "\<bar>x\<bar> / pow2 q < 2 ^ 53"
    using pos by (simp add: pos_divide_less_eq mult.commute)
  then have "\<bar>x / pow2 q\<bar> \<le> of_int (2 ^ 53)"
    using pos by simp
  then have "\<bar>?m\<bar> \<le> 2 ^ 53" by (rule round_half_even_bounded)
  with r err show ?thesis by blast
qed

section \<open>The additive checksum\<close>

lemma crc_sum_mod: "crc_sum bs = sum_list (map uint bs) mod 256"
proof -
  have "sum_list (map uint bs) AND 255 = take_bit 8 (sum_list (map uint bs))"
    by (simp add: take_bit_eq_mask mask_eq_exp_minus_1)
  then show ?thesis by (simp add: crc_sum_def take_bit_eq_mod)
qed

lemma crc_sum_word: "crc_sum bs = uint (sum_list bs)"
proof (induction bs)
  case Nil
  show ?case by (simp add: crc_sum_mod)
next
  case (Cons b bs)
  have "crc_sum (b # bs) = (uint b + sum_list (map uint bs) mod 256) mod 256"
    by (simp add: crc_sum_mod mod_add_right_eq)
  also have "\<dots> = (uint b + uint (sum_list bs)) mod 256"
    using Cons by (simp add: crc_sum_mod)
  also have "\<dots> = uint (b + sum_list bs)"
    by (simp add: uint_word_ariths)
  finally show ?case by simp
qed



lemma from_bytes_big_single: "from_bytes_big [b] = uint b"
  by (simp add: from_bytes_big_def)

lemma crc_packet_last: "raw \<noteq> [] \<Longrightarrow> crc_packet raw = uint (last raw)"
proof -
  assume ne: "raw \<noteq> []"
  then have "drop (length raw - 1) raw = [last raw]"
    by (induction raw rule: rev_induct) simp_all
  then show ?thesis
    by (simp add: crc_packet_def last_slice_def from_bytes_little_def from_bytes_big_single)
qed

lemma crc_packet_Nil: "crc_packet [] = 0"
  by (simp add: crc_packet_def last_slice_def from_bytes_little_def from_bytes_big_def)

lemma data_crc_butlast: "data_crc raw = uint (sum_list (butlast raw))"
  by (simp add: data_crc_def init_slice_def crc_sum_word butlast_conv_take)

lemma checksum_mismatch_iff:
  "raw \<noteq> [] \<Longrightarrow> checksum_mismatch raw \<longleftrightarrow> last raw \<noteq> sum_list (butlast raw)"
  by (simp add: checksum_mismatch_def crc_packet_last data_crc_butlast word_uint_eq_iff)



section \<open>Command frames\<close>

lemma create_command_GET_VERSION:
  "create_command ''00 00 04 01 16 55 AA 1A'' = Inr [0x00, 0x00, 0x04, 0x01, 0x16, 0x55, 0xAA, 0x1A]"
  by (simp add: create_command_def int16_def hex_value_def code_point_def)

lemma create_command_GET_BATTERY_INFO:
  "create_command ''00 00 04 01 13 55 AA 17'' = Inr [0x00, 0x00, 0x04, 0x01, 0x13, 0x55, 0xAA, 0x17]"
  by (simp add: create_command_def int16_def hex_value_def code_point_def)

lemma create_command_SERIAL_NUMBER:
  "create_command ''00 00 04 01 10 55 AA 14'' = Inr [0x00, 0x00, 0x04, 0x01, 0x10, 0x55, 0xAA, 0x14]"
  by (simp add: create_command_def int16_def hex_value_def code_point_def)

text \<open>
  Claim C7. Each of the three command templates is turned by \<^verbatim>\<open>_create_command\<close> into
  the 8 bytes \<open>00 00 04 01 id 55 AA checksum\<close> with \<open>id\<close> 0x16 (version), 0x13 (battery
  info), 0x10 (serial number); the last byte is \<open>crc_sum\<close> of the first seven, so the
  frame passes the checksum test; and two commands whose frames carry the same byte 4
  are the same command.
\<close>

theorem C7_command_frames:
  "map (\<lambda>(name, command). (name, create_command command)) pq_commands =
     [(''GET_VERSION'', Inr [0x00, 0x00, 0x04, 0x01, 0x16, 0x55, 0xAA, 0x1A]),
      (''GET_BATTERY_INFO'', Inr [0x00, 0x00, 0x04, 0x01, 0x13, 0x55, 0xAA, 0x17]),
      (''SERIAL_NUMBER'', Inr [0x00, 0x00, 0x04, 0x01, 0x10, 0x55, 0xAA, 0x14])] \<and>
   (\<forall>(name, command) \<in> set pq_commands.
      \<exists>frame. create_command command = Inr frame \<and> length frame = 8 \<and>
        uint (frame ! 7) = crc_sum (take 7 frame) \<and> \<not> checksum_mismatch frame) \<and>
   (\<forall>(name1, command1) \<in> set pq_commands. \<forall>(name2, command2) \<in> set pq_commands.
      \<forall>frame1 frame2.
        create_command command1 = Inr frame1 \<longrightarrow> create_command command2 = Inr frame2 \<longrightarrow>
        frame1 ! 4 = frame2 ! 4 \<longrightarrow> name1 = name2)"
  by (simp add: pq_commands_def create_command_GET_VERSION create_command_GET_BATTERY_INFO
      create_command_SERIAL_NUMBER crc_sum_def checksum_mismatch_def crc_packet_def data_crc_def
      last_slice_def init_slice_def from_bytes_little_def from_bytes_big_def)

theorem C7_command_frames_witness:
  "create_command ''00 00 04 01 13 55 AA 17'' = Inr frame13 \<and> length frame13 = 8 \<and>
   uint (frame13 ! 7) = crc_sum (take 7 frame13) \<and> frame13 ! 4 = 0x13"
  using C7_command_frames by (simp add: pq_commands_def frame13_def crc_sum_def)

section \<open>Battery status\<close>

text \<open>
  Claim C5. With \<^verbatim>\<open>current\<close> and \<^verbatim>\<open>SOC\<close> set, \<^verbatim>\<open>get_battery_status\<close> returns
  "Full Charge" whenever \<open>SOC \<ge> 100\<close> or \<^verbatim>\<open>batteryState == 4\<close>, whatever the current
  is; otherwise "Standby" for current 0, "Charging" for a positive and "Discharging" for a
  negative current. The witness is the case current = -5, SOC = 100.
\<close>

theorem C5_battery_status:
  assumes "current self = Some c" and "SOC self = Some soc"
  shows "get_battery_status self =
           Inr (if 100 \<le> soc \<or> batteryState self = Some 4 then ''Full Charge''
                else if c = 0 then ''Standby''
                else if 0 < c then ''Charging''
                else ''Discharging'')"
  using assms by (auto simp: get_battery_status_def)

theorem C5_battery_status_witness:
  "current (new_BatteryInfo\<lparr>current := Some (- 5), SOC := Some 100\<rparr>) = Some (- 5) \<and>
   SOC (new_BatteryInfo\<lparr>current := Some (- 5), SOC := Some 100\<rparr>) = Some 100 \<and>
   get_battery_status (new_BatteryInfo\<lparr>current := Some (- 5), SOC := Some 100\<rparr>) =
     Inr ''Full Charge''"
  using C5_battery_status [of "new_BatteryInfo\<lparr>current := Some (- 5), SOC := Some 100\<rparr>" "- 5" 100]
  by simp

section \<open>Slices and hex digits\<close>

lemma length_py_slice: "length (py_slice a b xs) = min (b - a) (length xs - a)"
  by (simp add: py_slice_def)

lemma py_slice_nth: "i < b - a \<Longrightarrow> a + i < length xs \<Longrightarrow> py_slice a b xs ! i = xs ! (a + i)"
  by (simp add: py_slice_def)

lemma py_slice2: "a + 2 \<le> length xs \<Longrightarrow> py_slice a (a + 2) xs = [xs ! a, xs ! (a + 1)]"
  by (rule nth_equalityI) (auto simp: length_py_slice py_slice_nth nth_Cons split: nat.splits)

lemma py_slice4:
  "a + 4 \<le> length xs \<Longrightarrow> py_slice a (a + 4) xs = [xs ! a, xs ! (a + 1), xs ! (a + 2), xs ! (a + 3)]"
  by (rule nth_equalityI)
    (auto simp: length_py_slice py_slice_nth nth_Cons numeral_3_eq_3 numeral_2_eq_2 split: nat.splits)

lemma length_hex: "length (hex bs) = 2 * length bs"
  by (induction bs) (simp_all add: hex_def)

lemma hex_Cons: "hex (b # bs) = hexdigit (unat b div 16) # hexdigit (unat b mod 16) # hex bs"
  by (simp add: hex_def)

lemma int_of_digit_hexdigit:
  "n < 16 \<Longrightarrow> int_of_digit (hexdigit n) = (if n < 10 then Inr (int n) else Inl ValueError)"
proof -
  assume "n < 16"
  then have "n \<in> set [0..<16]" by simp
  moreover have "\<forall>m \<in> set [0..<16].
      int_of_digit (hexdigit m) = (if m < 10 then Inr (int m) else Inl ValueError)"
    by code_simp
  ultimately show ?thesis by blast
qed

lemma heat_digits:
  assumes "72 \<le> length data"
  shows "length (hex (rev (py_slice 68 72 data))) = 8"
    and "hex (rev (py_slice 68 72 data)) ! 6 = hexdigit (unat (data ! 68) div 16)"
    and "hex (rev (py_slice 68 72 data)) ! 7 = hexdigit (unat (data ! 68) mod 16)"
proof -
  have "py_slice 68 72 data = [data ! 68, data ! 69, data ! 70, data ! 71]"
    using py_slice4 [of 68 data] assms by simp
  then show "length (hex (rev (py_slice 68 72 data))) = 8"
    and "hex (rev (py_slice 68 72 data)) ! 6 = hexdigit (unat (data ! 68) div 16)"
    and "hex (rev (py_slice 68 72 data)) ! 7 = hexdigit (unat (data ! 68) mod 16)"
    by (simp_all add: hex_Cons hex_def)
qed

lemma heat_short: "length data < 72 \<Longrightarrow> length (hex (rev (py_slice 68 72 data))) \<le> 6"
  by (simp add: length_hex length_py_slice)

section \<open>Sequencing\<close>

lemma fst_and_then:
  "fst (and_then r f) = (case fst r of None \<Rightarrow> fst (f (snd r)) | Some e \<Rightarrow> Some e)"
  by (simp add: and_then_def split: option.splits)

lemma and_then_None: "fst r = None \<Longrightarrow> and_then r f = f (snd r)"
  by (simp add: and_then_def)

lemma and_then_Some: "fst r = Some e \<Longrightarrow> and_then r f = r"
  by (simp add: and_then_def)

lemma and_then_keeps:
  assumes "\<And>s. \<phi> (snd (f s)) = \<phi> s"
  shows "\<phi> (snd (and_then r f)) = \<phi> (snd r)"
  using assms by (simp add: and_then_def split: option.splits)

section \<open>The cell loop\<close>

lemma cells_loop_error: "fst (cells_loop bp es pack) = None \<or> fst (cells_loop bp es pack) = Some IndexError"
  by (induction bp es pack rule: cells_loop.induct) (simp_all add: Let_def)

lemma cells_loop_no_error:
  assumes "\<forall>(key, dt) \<in> set es. even key \<longrightarrow> key + 1 < length bp"
  shows "fst (cells_loop bp es pack) = None"
  using assms
  by (induction bp es pack rule: cells_loop.induct) (auto simp: Let_def odd_iff_mod_2_eq_one)

lemma enumerate_even_in_range:
  assumes "even (length bp)"
  shows "\<forall>(key, dt) \<in> set (enumerate 0 bp). even key \<longrightarrow> key + 1 < length bp"
proof -
  have "key + 1 < length bp" if "key < length bp" "even key" for key
  proof -
    from that assms have "key + 1 \<noteq> length bp" by (metis Suc_eq_plus1 even_Suc)
    with that show ?thesis by simp
  qed
  then show ?thesis by (auto simp: in_set_enumerate_eq)
qed

section \<open>What each stage of the decoder leaves alone\<close>

lemma parse_voltages_keeps [simp]:
  "error_code (parse_voltages s d) = error_code s"
  "error (parse_voltages s d) = error s"
  "error_message (parse_voltages s d) = error_message s"
  "batteryPack (parse_voltages s d) = batteryPack s"
  "dischargeSwitchState (parse_voltages s d) = dischargeSwitchState s"
  "voltage (parse_voltages s d) = Some (from_bytes_big (rev (py_slice 12 16 d)))"
  by (simp_all add: parse_voltages_def)

lemma parse_cells_keeps [simp]:
  "error_code (snd (parse_cells s d)) = error_code s"
  "error (snd (parse_cells s d)) = error s"
  "error_message (snd (parse_cells s d)) = error_message s"
  "dischargeSwitchState (snd (parse_cells s d)) = dischargeSwitchState s"
  "voltage (snd (parse_cells s d)) = voltage s"
  by (simp_all add: parse_cells_def Let_def)

lemma batteryPack_parse_cells:
  "batteryPack (snd (parse_cells s d)) =
     snd (cells_loop (py_slice 16 48 d) (enumerate 0 (py_slice 16 48 d)) (batteryPack s))"
  by (simp add: parse_cells_def Let_def)

lemma fst_parse_cells:
  "fst (parse_cells s d) = fst (cells_loop (py_slice 16 48 d) (enumerate 0 (py_slice 16 48 d)) (batteryPack s))"
  by (simp add: parse_cells_def Let_def)

lemma parse_measurements_keeps [simp]:
  "error_code (snd (parse_measurements s d)) = error_code s"
  "error (snd (parse_measurements s d)) = error s"
  "error_message (snd (parse_measurements s d)) = error_message s"
  "batteryPack (snd (parse_measurements s d)) = batteryPack s"
  "dischargeSwitchState (snd (parse_measurements s d)) = dischargeSwitchState s"
  by (simp_all add: parse_measurements_def Let_def split: option.splits)

lemma parse_measurements_Some:
  assumes "voltage s = Some v"
  shows "fst (parse_measurements s d) = None"
    and "heat (snd (parse_measurements s d)) = Some (hex (rev (py_slice 68 72 d)))"
    and "watt (snd (parse_measurements s d)) =
           Some (py_round (py_fdiv (py_round (py_truediv
             (v * from_bytes_big_signed (rev (py_slice 48 52 d))) 10000) 1) 100) 2)"
    and "current (snd (parse_measurements s d)) =
           Some (py_round (py_truediv (from_bytes_big_signed (rev (py_slice 48 52 d))) 1000) 2)"
  using assms by (simp_all add: parse_measurements_def Let_def)

lemma parse_discharge_switch_keeps [simp]:
  "error_code (snd (parse_discharge_switch s)) = error_code s"
  "error (snd (parse_discharge_switch s)) = error s"
  "error_message (snd (parse_discharge_switch s)) = error_message s"
  "batteryPack (snd (parse_discharge_switch s)) = batteryPack s"
  "watt (snd (parse_discharge_switch s)) = watt s"
  "heat (snd (parse_discharge_switch s)) = heat s"
  "current (snd (parse_discharge_switch s)) = current s"
  by (simp_all add: parse_discharge_switch_def split: option.splits sum.splits)

lemma parse_states_keeps [simp]:
  "error_code (parse_states s d) = error_code s"
  "error (parse_states s d) = error s"
  "error_message (parse_states s d) = error_message s"
  "batteryPack (parse_states s d) = batteryPack s"
  "watt (parse_states s d) = watt s"
  "heat (parse_states s d) = heat s"
  "current (parse_states s d) = current s"
  "dischargeSwitchState (parse_states s d) = dischargeSwitchState s"
  "SOC (parse_states s d) = Some (from_bytes_big (rev (py_slice 90 92 d)))"
  "dischargesAHCount (parse_states s d) = Some (from_bytes_big (rev (py_slice 100 104 d)))"
  "equilibriumState (parse_states s d) = Some (from_bytes_big (rev (py_slice 84 88 d)))"
  "failureState (parse_states s d) = Some (map uint (rev (py_slice 80 84 d)))"
  by (simp_all add: parse_states_def)

lemma set_battery_status_keeps [simp]:
  "error_code (snd (set_battery_status s)) = error_code s"
  "error (snd (set_battery_status s)) = error s"
  "error_message (snd (set_battery_status s)) = error_message s"
  "batteryPack (snd (set_battery_status s)) = batteryPack s"
  "watt (snd (set_battery_status s)) = watt s"
  "heat (snd (set_battery_status s)) = heat s"
  "SOC (snd (set_battery_status s)) = SOC s"
  "dischargesAHCount (snd (set_battery_status s)) = dischargesAHCount s"
  "dischargeSwitchState (snd (set_battery_status s)) = dischargeSwitchState s"
  "equilibriumState (snd (set_battery_status s)) = equilibriumState s"
  "failureState (snd (set_battery_status s)) = failureState s"
  by (simp_all add: set_battery_status_def split: sum.splits)

lemma set_balance_status_keeps [simp]:
  "error_code (snd (set_balance_status s)) = error_code s"
  "error (snd (set_balance_status s)) = error s"
  "error_message (snd (set_balance_status s)) = error_message s"
  "batteryPack (snd (set_balance_status s)) = batteryPack s"
  "watt (snd (set_balance_status s)) = watt s"
  "heat (snd (set_balance_status s)) = heat s"
  "SOC (snd (set_balance_status s)) = SOC s"
  "dischargesAHCount (snd (set_balance_status s)) = dischargesAHCount s"
  "dischargeSwitchState (snd (set_balance_status s)) = dischargeSwitchState s"
  "failureState (snd (set_balance_status s)) = failureState s"
  by (simp_all add: set_balance_status_def split: option.splits)

lemma set_cell_status_keeps [simp]:
  "error_code (snd (set_cell_status s)) = error_code s"
  "error (snd (set_cell_status s)) = error s"
  "error_message (snd (set_cell_status s)) = error_message s"
  "batteryPack (snd (set_cell_status s)) = batteryPack s"
  "watt (snd (set_cell_status s)) = watt s"
  "heat (snd (set_cell_status s)) = heat s"
  "SOC (snd (set_cell_status s)) = SOC s"
  "dischargesAHCount (snd (set_cell_status s)) = dischargesAHCount s"
  "dischargeSwitchState (snd (set_cell_status s)) = dischargeSwitchState s"
  by (simp_all add: set_cell_status_def split: option.splits)

lemma set_heat_status_keeps [simp]:
  "error_code (snd (set_heat_status s)) = error_code s"
  "error (snd (set_heat_status s)) = error s"
  "error_message (snd (set_heat_status s)) = error_message s"
  "batteryPack (snd (set_heat_status s)) = batteryPack s"
  "watt (snd (set_heat_status s)) = watt s"
  "SOC (snd (set_heat_status s)) = SOC s"
  "dischargesAHCount (snd (set_heat_status s)) = dischargesAHCount s"
  "dischargeSwitchState (snd (set_heat_status s)) = dischargeSwitchState s"
  by (simp_all add: set_heat_status_def split: option.splits sum.splits)

lemmas keeps =
  and_then_keeps [where \<phi> = error_code] and_then_keeps [where \<phi> = error]
  and_then_keeps [where \<phi> = error_message] and_then_keeps [where \<phi> = batteryPack]
  and_then_keeps [where \<phi> = watt] and_then_keeps [where \<phi> = SOC]
  and_then_keeps [where \<phi> = dischargesAHCount] and_then_keeps [where \<phi> = dischargeSwitchState]

lemma parse_statuses_keeps [simp]:
  "error_code (snd (parse_statuses s)) = error_code s"
  "error (snd (parse_statuses s)) = error s"
  "error_message (snd (parse_statuses s)) = error_message s"
  "batteryPack (snd (parse_statuses s)) = batteryPack s"
  "watt (snd (parse_statuses s)) = watt s"
  "SOC (snd (parse_statuses s)) = SOC s"
  "dischargesAHCount (snd (parse_statuses s)) = dischargesAHCount s"
  "dischargeSwitchState (snd (parse_statuses s)) = dischargeSwitchState s"
  by (simp_all add: parse_statuses_def keeps)

lemma parse_func_keeps:
  "error_code (snd (parse_battery_info_func s d)) = error_code s"
  "error (snd (parse_battery_info_func s d)) = error s"
  "error_message (snd (parse_battery_info_func s d)) = error_message s"
  by (simp_all add: parse_battery_info_func_def keeps)

lemma batteryPack_parse_func:
  "batteryPack (snd (parse_battery_info_func s d)) =
     snd (cells_loop (py_slice 16 48 d) (enumerate 0 (py_slice 16 48 d)) (batteryPack s))"
  by (simp add: parse_battery_info_func_def keeps batteryPack_parse_cells)

section \<open>Where the decoder raises\<close>

lemma fst_parse_cells_full: "48 \<le> length d \<Longrightarrow> fst (parse_cells s d) = None"
proof -
  assume "48 \<le> length d"
  then have "even (length (py_slice 16 48 d))" by (simp add: length_py_slice)
  then have "fst (cells_loop (py_slice 16 48 d) (enumerate 0 (py_slice 16 48 d)) (batteryPack s)) = None"
    by (intro cells_loop_no_error enumerate_even_in_range)
  then show ?thesis by (simp add: fst_parse_cells)
qed

lemma fst_parse_cells_cases: "fst (parse_cells s d) = None \<or> fst (parse_cells s d) = Some IndexError"
  by (simp add: fst_parse_cells cells_loop_error)

lemma parse_discharge_switch_short:
  assumes "heat s = Some h" and "length h \<le> 6"
  shows "fst (parse_discharge_switch s) = Some IndexError"
  using assms by (simp add: parse_discharge_switch_def)

lemma parse_discharge_switch_digit:
  assumes "heat s = Some h" and "6 < length h"
  shows "parse_discharge_switch s =
           (case int_of_digit (h ! 6) of
              Inl e \<Rightarrow> (Some e, s)
            | Inr d \<Rightarrow> (None, s\<lparr>dischargeSwitchState := Some (if 8 \<le> d then 0 else 1)\<rparr>))"
  using assms by (simp add: parse_discharge_switch_def)

lemma fst_parse_statuses:
  assumes "current s = Some c" and "SOC s = Some soc" and "equilibriumState s = Some eq"
    and "failureState s = Some fs" and "2 \<le> length fs" and "heat s = Some h" and "7 < length h"
  shows "fst (parse_statuses s) = (case int_of_digit (h ! 7) of Inl e \<Rightarrow> Some e | Inr d \<Rightarrow> None)"
proof -
  have 1: "fst (set_battery_status s) = None"
    using assms by (simp add: set_battery_status_def get_battery_status_def Let_def)
  let ?s1 = "snd (set_battery_status s)"
  have 2: "fst (set_balance_status ?s1) = None"
    using assms by (simp add: set_balance_status_def)
  let ?s2 = "snd (set_balance_status ?s1)"
  from assms have "fs \<noteq> []" "\<not> length fs \<le> 1" by auto
  then have 3: "fst (set_cell_status ?s2) = None"
    using assms by (simp add: set_cell_status_def)
  let ?s3 = "snd (set_cell_status ?s2)"
  have "heat ?s3 = Some h" using assms by simp
  then have 4: "fst (set_heat_status ?s3) =
      (case int_of_digit (h ! 7) of Inl e \<Rightarrow> Some e | Inr d \<Rightarrow> None)"
    using assms by (simp add: set_heat_status_def split: sum.splits)
  show ?thesis
    by (simp add: parse_statuses_def and_then_None 1 2 3 4)
qed

lemma parse_func_short:
  assumes "length d < 72"
  shows "fst (parse_battery_info_func s d) = Some IndexError"
proof -
  let ?r1 = "parse_cells (parse_voltages s d) d"
  let ?rest = "\<lambda>self. and_then (parse_measurements self d) (\<lambda>self.
     and_then (parse_discharge_switch self) (\<lambda>self. parse_statuses (parse_states self d)))"
  have unfold: "parse_battery_info_func s d = and_then ?r1 ?rest"
    by (simp add: parse_battery_info_func_def)
  from fst_parse_cells_cases [of "parse_voltages s d" d] show ?thesis
  proof
    assume e: "fst ?r1 = Some IndexError"
    then show ?thesis by (simp add: unfold and_then_Some)
  next
    assume ok: "fst ?r1 = None"
    let ?s2 = "snd ?r1"
    have v: "voltage ?s2 = Some (from_bytes_big (rev (py_slice 12 16 d)))" by simp
    let ?s3 = "snd (parse_measurements ?s2 d)"
    have m: "fst (parse_measurements ?s2 d) = None"
      and h: "heat ?s3 = Some (hex (rev (py_slice 68 72 d)))"
      using parse_measurements_Some [OF v] by simp_all
    have "fst (parse_discharge_switch ?s3) = Some IndexError"
      using h heat_short [OF assms] by (rule parse_discharge_switch_short)
    then show ?thesis
      by (simp add: unfold and_then_None ok m and_then_Some)
  qed
qed

lemma parse_func_full:
  assumes "72 \<le> length d"
  shows "\<exists>s3. dischargeSwitchState s3 = dischargeSwitchState s \<and>
           heat s3 = Some (hex (rev (py_slice 68 72 d))) \<and>
           current s3 = Some (py_round (py_truediv (from_bytes_big_signed (rev (py_slice 48 52 d))) 1000) 2) \<and>
           parse_battery_info_func s d =
             (case int_of_digit (hexdigit (unat (d ! 68) div 16)) of
                Inl e \<Rightarrow> (Some e, s3)
              | Inr n \<Rightarrow> parse_statuses
                  (parse_states (s3\<lparr>dischargeSwitchState := Some (if 8 \<le> n then 0 else 1)\<rparr>) d))"
proof -
  let ?r1 = "parse_cells (parse_voltages s d) d"
  let ?s2 = "snd ?r1"
  let ?s3 = "snd (parse_measurements ?s2 d)"
  let ?h = "hex (rev (py_slice 68 72 d))"
  have ok: "fst ?r1 = None" using assms by (simp add: fst_parse_cells_full)
  have v: "voltage ?s2 = Some (from_bytes_big (rev (py_slice 12 16 d)))" by simp
  have m: "fst (parse_measurements ?s2 d) = None" and h: "heat ?s3 = Some ?h"
    and c: "current ?s3 = Some (py_round (py_truediv (from_bytes_big_signed (rev (py_slice 48 52 d))) 1000) 2)"
    using parse_measurements_Some [OF v] by simp_all
  have len: "6 < length ?h" and d6: "?h ! 6 = hexdigit (unat (d ! 68) div 16)"
    using heat_digits [OF assms] by simp_all
  have sw: "parse_discharge_switch ?s3 =
      (case int_of_digit (hexdigit (unat (d ! 68) div 16)) of
         Inl e \<Rightarrow> (Some e, ?s3)
       | Inr n \<Rightarrow> (None, ?s3\<lparr>dischargeSwitchState := Some (if 8 \<le> n then 0 else 1)\<rparr>))"
    using parse_discharge_switch_digit [OF h len] by (simp add: d6)
  have "parse_battery_info_func s d =
      and_then (parse_discharge_switch ?s3) (\<lambda>self. parse_statuses (parse_states self d))"
    by (simp add: parse_battery_info_func_def and_then_None ok m)
  also have "\<dots> = (case int_of_digit (hexdigit (unat (d ! 68) div 16)) of
                Inl e \<Rightarrow> (Some e, ?s3)
              | Inr n \<Rightarrow> parse_statuses
                  (parse_states (?s3\<lparr>dischargeSwitchState := Some (if 8 \<le> n then 0 else 1)\<rparr>) d))"
    by (simp add: sw and_then_def split: sum.splits)
  finally have "parse_battery_info_func s d = \<dots>" .
  moreover have "dischargeSwitchState ?s3 = dischargeSwitchState s" by simp
  ultimately show ?thesis using h c by blast
qed

lemma nibble_bounds:
  fixes b :: byte
  shows "unat b div 16 < 16" and "unat b mod 16 < 16"
proof -
  have "unat b < 2 ^ LENGTH(8)" by (rule unsigned_less)
  then have "unat b < 256" by simp
  then show "unat b div 16 < 16" by simp
  show "unat b mod 16 < 16" by simp
qed

lemma parse_func_hex_letter:
  assumes "72 \<le> length d" and "10 \<le> unat (d ! 68) div 16"
  shows "fst (parse_battery_info_func s d) = Some ValueError"
    and "dischargeSwitchState (snd (parse_battery_info_func s d)) = dischargeSwitchState s"
proof -
  have "int_of_digit (hexdigit (unat (d ! 68) div 16)) = Inl ValueError"
    using assms(2) by (simp add: int_of_digit_hexdigit nibble_bounds)
  with parse_func_full [OF assms(1), of s]
  show "fst (parse_battery_info_func s d) = Some ValueError"
    and "dischargeSwitchState (snd (parse_battery_info_func s d)) = dischargeSwitchState s"
    by auto
qed

lemma parse_func_success_iff:
  assumes "82 \<le> length d"
  shows "fst (parse_battery_info_func s d) = None \<longleftrightarrow>
           unat (d ! 68) div 16 < 10 \<and> unat (d ! 68) mod 16 < 10"
    and "fst (parse_battery_info_func s d) = None \<or>
         fst (parse_battery_info_func s d) = Some ValueError"
proof -
  let ?hi = "unat (d ! 68) div 16" and ?lo = "unat (d ! 68) mod 16"
  let ?h = "hex (rev (py_slice 68 72 d))"
  from assms have len72: "72 \<le> length d" by simp
  from parse_func_full [OF len72, of s] obtain s3 where
    h: "heat s3 = Some ?h" and
    c: "current s3 = Some (py_round (py_truediv (from_bytes_big_signed (rev (py_slice 48 52 d))) 1000) 2)" and
    eq: "parse_battery_info_func s d =
             (case int_of_digit (hexdigit ?hi) of
                Inl e \<Rightarrow> (Some e, s3)
              | Inr n \<Rightarrow> parse_statuses
                  (parse_states (s3\<lparr>dischargeSwitchState := Some (if 8 \<le> n then 0 else 1)\<rparr>) d))"
    by blast
  have st: "fst (parse_statuses (parse_states (s3\<lparr>dischargeSwitchState := x\<rparr>) d)) =
      (case int_of_digit (hexdigit ?lo) of Inl e \<Rightarrow> Some e | Inr n \<Rightarrow> None)" for x
  proof -
    let ?s5 = "parse_states (s3\<lparr>dischargeSwitchState := x\<rparr>) d"
    have "2 \<le> length (map uint (rev (py_slice 80 84 d)))"
      using assms by (simp add: length_py_slice)
    moreover have "heat ?s5 = Some ?h" "current ?s5 = Some (py_round (py_truediv (from_bytes_big_signed (rev (py_slice 48 52 d))) 1000) 2)"
      using h c by simp_all
    moreover have "7 < length ?h" "?h ! 7 = hexdigit ?lo"
      using heat_digits [OF len72] by simp_all
    ultimately show ?thesis
      using fst_parse_statuses [of ?s5 _ _ _ "map uint (rev (py_slice 80 84 d))" ?h]
      by simp
  qed
  show "fst (parse_battery_info_func s d) = None \<longleftrightarrow> ?hi < 10 \<and> ?lo < 10"
    by (simp add: eq st int_of_digit_hexdigit nibble_bounds split: sum.splits)
  show "fst (parse_battery_info_func s d) = None \<or>
         fst (parse_battery_info_func s d) = Some ValueError"
    by (simp add: eq st int_of_digit_hexdigit nibble_bounds split: sum.splits)
qed

lemma parse_func_success_fields:
  assumes "fst (parse_battery_info_func s d) = None"
  shows "SOC (snd (parse_battery_info_func s d)) = Some (from_bytes_big (rev (py_slice 90 92 d)))"
    and "dischargesAHCount (snd (parse_battery_info_func s d)) =
           Some (from_bytes_big (rev (py_slice 100 104 d)))"
proof -
  have len72: "72 \<le> length d"
  proof (rule ccontr)
    assume "\<not> 72 \<le> length d"
    then have "fst (parse_battery_info_func s d) = Some IndexError"
      by (simp add: parse_func_short)
    with assms show False by simp
  qed
  from parse_func_full [OF len72, of s] obtain s3 where
    eq: "parse_battery_info_func s d =
             (case int_of_digit (hexdigit (unat (d ! 68) div 16)) of
                Inl e \<Rightarrow> (Some e, s3)
              | Inr n \<Rightarrow> parse_statuses
                  (parse_states (s3\<lparr>dischargeSwitchState := Some (if 8 \<le> n then 0 else 1)\<rparr>) d))"
    by blast
  from assms eq obtain n :: int where
    "parse_battery_info_func s d = parse_statuses
       (parse_states (s3\<lparr>dischargeSwitchState := Some (if 8 \<le> n then 0 else 1)\<rparr>) d)"
    by (auto split: sum.splits)
  then show "SOC (snd (parse_battery_info_func s d)) = Some (from_bytes_big (rev (py_slice 90 92 d)))"
    and "dischargesAHCount (snd (parse_battery_info_func s d)) =
           Some (from_bytes_big (rev (py_slice 100 104 d)))"
    by simp_all
qed

lemma watt_parse_func:
  assumes "48 \<le> length d"
  shows "watt (snd (parse_battery_info_func s d)) =
           Some (py_round (py_fdiv (py_round (py_truediv
             (from_bytes_big (rev (py_slice 12 16 d)) *
              from_bytes_big_signed (rev (py_slice 48 52 d))) 10000) 1) 100) 2)"
proof -
  let ?r1 = "parse_cells (parse_voltages s d) d"
  have ok: "fst ?r1 = None" using assms by (simp add: fst_parse_cells_full)
  have v: "voltage (snd ?r1) = Some (from_bytes_big (rev (py_slice 12 16 d)))" by simp
  have "watt (snd (parse_battery_info_func s d)) = watt (snd (parse_measurements (snd ?r1) d))"
    by (simp add: parse_battery_info_func_def and_then_None ok keeps)
  then show ?thesis by (simp add: parse_measurements_Some (3) [OF v])
qed

section \<open>The decorated parsers\<close>

lemma check_crc_ok: "\<not> checksum_mismatch d \<Longrightarrow> check_crc name func s d = func s d"
  by (simp add: check_crc_def)

lemma check_crc_mismatch:
  "checksum_mismatch d \<Longrightarrow>
   check_crc name func s d =
     func (s\<lparr>error := Some ERROR_CHECKSUM,
             error_message := Some (''Error: checksum missmatch of '' @ name @ '': data:'' @
               str_int (data_crc d) @ '', crc-packet:'' @ str_int (crc_packet d))\<rparr>) d"
  by (simp add: check_crc_def)

lemma parse_battery_info_func_of:
  "\<exists>s'. parse_battery_info s d = parse_battery_info_func s' d \<and>
        batteryPack s' = batteryPack s \<and> dischargeSwitchState s' = dischargeSwitchState s \<and>
        error_code s' = error_code s"
  by (cases "checksum_mismatch d")
    (auto simp: parse_battery_info_def check_crc_ok check_crc_mismatch)

lemma parse_version_func_keeps:
  "error_code (snd (parse_version_func s d)) = error_code s"
  "error (snd (parse_version_func s d)) = error s"
  "error_message (snd (parse_version_func s d)) = error_message s"
  by (simp_all add: parse_version_func_def Let_def)

lemma fst_parse_battery_info_short:
  "length d < 72 \<Longrightarrow> fst (parse_battery_info s d) = Some IndexError"
  using parse_battery_info_func_of [of s d] by (auto simp: parse_func_short)

lemma fst_parse_battery_info_iff:
  assumes "82 \<le> length d"
  shows "fst (parse_battery_info s d) = None \<longleftrightarrow>
           unat (d ! 68) div 16 < 10 \<and> unat (d ! 68) mod 16 < 10"
    and "fst (parse_battery_info s d) = None \<or> fst (parse_battery_info s d) = Some ValueError"
proof -
  from parse_battery_info_func_of [of s d] obtain s' where
    eq: "parse_battery_info s d = parse_battery_info_func s' d" by blast
  show "fst (parse_battery_info s d) = None \<longleftrightarrow>
           unat (d ! 68) div 16 < 10 \<and> unat (d ! 68) mod 16 < 10"
    unfolding eq by (rule parse_func_success_iff (1) [OF assms])
  show "fst (parse_battery_info s d) = None \<or> fst (parse_battery_info s d) = Some ValueError"
    unfolding eq by (rule parse_func_success_iff (2) [OF assms])
qed

lemma parse_battery_info_success_fields:
  assumes "fst (parse_battery_info s d) = None"
  shows "SOC (snd (parse_battery_info s d)) = Some (from_bytes_big (rev (py_slice 90 92 d)))"
    and "dischargesAHCount (snd (parse_battery_info s d)) =
           Some (from_bytes_big (rev (py_slice 100 104 d)))"
  using parse_battery_info_func_of [of s d] assms parse_func_success_fields
  by auto


lemma parse_battery_info_hex_letter:
  assumes "72 \<le> length d" and "10 \<le> unat (d ! 68) div 16"
  shows "fst (parse_battery_info s d) = Some ValueError"
    and "dischargeSwitchState (snd (parse_battery_info s d)) = dischargeSwitchState s"
  using parse_battery_info_func_of [of s d] parse_func_hex_letter [OF assms]
  by auto

lemma watt_parse_battery_info:
  assumes "48 \<le> length d"
  shows "watt (snd (parse_battery_info s d)) =
           Some (py_round (py_fdiv (py_round (py_truediv
             (from_bytes_big (rev (py_slice 12 16 d)) *
              from_bytes_big_signed (rev (py_slice 48 52 d))) 10000) 1) 100) 2)"
  using parse_battery_info_func_of [of s d] watt_parse_func [OF assms]
  by auto

lemma batteryPack_parse_battery_info:
  "batteryPack (snd (parse_battery_info s d)) =
     snd (cells_loop (py_slice 16 48 d) (enumerate 0 (py_slice 16 48 d)) (batteryPack s))"
  using parse_battery_info_func_of [of s d] by (auto simp: batteryPack_parse_func)

lemma from_bytes_big_rev2: "from_bytes_big (rev [a, b]) = uint a + 256 * uint b"
  by (simp add: from_bytes_big_def)

section \<open>Checksum taint\<close>

text \<open>
  Claim C1. On a buffer whose last byte differs from the checksum of the bytes before it,
  the decorated parsers (battery info and version) assign the code 6 to the attribute
  \<^verbatim>\<open>error\<close> and set \<^verbatim>\<open>error_message\<close>, but \<^verbatim>\<open>error_code\<close> keeps the value it had:
  the documented effect on \<^verbatim>\<open>error_code\<close> does not happen. The witness is a fresh
  instance and 104 zero bytes followed by the byte 1: the parser returns normally and
  \<^verbatim>\<open>error_code\<close> is still 0.
\<close>

theorem C1_mismatch_sets_error_not_error_code:
  assumes "checksum_mismatch data"
  shows "error_code (snd (parse_battery_info self data)) = error_code self \<and>
         error (snd (parse_battery_info self data)) = Some ERROR_CHECKSUM \<and>
         error_message (snd (parse_battery_info self data)) =
           Some (''Error: checksum missmatch of parse_battery_info: data:'' @
                 str_int (data_crc data) @ '', crc-packet:'' @ str_int (crc_packet data)) \<and>
         error_code (snd (parse_version self data)) = error_code self \<and>
         error (snd (parse_version self data)) = Some ERROR_CHECKSUM \<and>
         error_message (snd (parse_version self data)) =
           Some (''Error: checksum missmatch of parse_version: data:'' @
                 str_int (data_crc data) @ '', crc-packet:'' @ str_int (crc_packet data))"
  using assms
  by (simp add: parse_battery_info_def parse_version_def check_crc_mismatch parse_func_keeps
      parse_version_func_keeps)

lemma buf_bad_crc_facts:
  "checksum_mismatch buf_bad_crc" "length buf_bad_crc = 105" "buf_bad_crc ! 68 = 0"
  "data_crc buf_bad_crc = 0" "crc_packet buf_bad_crc = 1"
  by (simp_all add: buf_bad_crc_def checksum_mismatch_iff nth_append data_crc_butlast
      crc_packet_last sum_list_replicate)

theorem C1_mismatch_sets_error_not_error_code_witness:
  "checksum_mismatch buf_bad_crc \<and>
   fst (parse_battery_info new_BatteryInfo buf_bad_crc) = None \<and>
   error_code (snd (parse_battery_info new_BatteryInfo buf_bad_crc)) = 0 \<and>
   error (snd (parse_battery_info new_BatteryInfo buf_bad_crc)) = Some 6 \<and>
   error_message (snd (parse_battery_info new_BatteryInfo buf_bad_crc)) =
     Some ''Error: checksum missmatch of parse_battery_info: data:0, crc-packet:1''"
proof -
  have ok: "fst (parse_battery_info new_BatteryInfo buf_bad_crc) = None"
    by (simp add: fst_parse_battery_info_iff buf_bad_crc_facts)
  have s0: "str_int 0 = ''0''" and s1: "str_int 1 = ''1''"
    by (simp_all add: str_int_def str_nat.simps hexdigit_def)
  from C1_mismatch_sets_error_not_error_code [OF buf_bad_crc_facts(1), of new_BatteryInfo] ok
  show ?thesis
    by (simp add: buf_bad_crc_facts s0 s1 ERROR_CHECKSUM_def new_BatteryInfo_def)
qed

section \<open>Short buffers\<close>






section \<open>Discharge switch\<close>

lemma buf_hex_letter_facts:
  "\<not> checksum_mismatch buf_hex_letter" "length buf_hex_letter = 105"
  "buf_hex_letter ! 68 = 0xA0"
  by (simp_all add: buf_hex_letter_def checksum_mismatch_iff sum_list_replicate nth_append
      butlast_append)

text \<open>
  Claim C3. The test is \<^verbatim>\<open>int(self.heat[6]) >= 8\<close> with \<^verbatim>\<open>int\<close> in base 10. When the
  digit at index 6 of the heat string (the high half of byte 68) is one of the letters
  \<open>a\<close> to \<open>f\<close>, the call raises \<^verbatim>\<open>ValueError\<close> and \<^verbatim>\<open>dischargeSwitchState\<close> keeps
  the value it had, instead of becoming 0.
\<close>

theorem C3_hex_letter_raises:
  assumes "72 \<le> length data" and "10 \<le> unat (data ! 68) div 16"
  shows "hex (rev (py_slice 68 72 data)) ! 6 = hexdigit (unat (data ! 68) div 16) \<and>
         fst (parse_battery_info self data) = Some ValueError \<and>
         dischargeSwitchState (snd (parse_battery_info self data)) = dischargeSwitchState self"
  using assms heat_digits (2) [OF assms(1)] parse_battery_info_hex_letter [OF assms]
  by simp

theorem C3_hex_letter_raises_witness:
  "72 \<le> length buf_hex_letter \<and> 10 \<le> unat (buf_hex_letter ! 68) div 16 \<and>
   hex (rev (py_slice 68 72 buf_hex_letter)) ! 6 = CHR ''a'' \<and>
   fst (parse_battery_info new_BatteryInfo buf_hex_letter) = Some ValueError \<and>
   dischargeSwitchState (snd (parse_battery_info new_BatteryInfo buf_hex_letter)) = None"
  using C3_hex_letter_raises [of buf_hex_letter new_BatteryInfo]
  by (simp add: buf_hex_letter_facts hexdigit_def new_BatteryInfo_def)

section \<open>The discharge switch on decimal digits\<close>

text \<open>
  Where the call returns, the digit at index 6 is one of \<open>0\<close> to \<open>9\<close>, and the switch
  state is 0 for the digits 8 and 9 and 1 for the others.
\<close>

lemma discharge_switch_decimal:
  assumes "fst (parse_battery_info s d) = None"
  shows "unat (d ! 68) div 16 < 10 \<and>
         dischargeSwitchState (snd (parse_battery_info s d)) =
           Some (if 8 \<le> unat (d ! 68) div 16 then 0 else 1)"
proof -
  from parse_battery_info_func_of [of s d] obtain s' where
    eq: "parse_battery_info s d = parse_battery_info_func s' d" by blast
  have len72: "72 \<le> length d"
  proof (rule ccontr)
    assume "\<not> 72 \<le> length d"
    then have "fst (parse_battery_info s d) = Some IndexError"
      by (simp add: fst_parse_battery_info_short)
    with assms show False by simp
  qed
  let ?hi = "unat (d ! 68) div 16"
  from parse_func_full [OF len72, of s'] obtain s3 where
    full: "parse_battery_info_func s' d =
             (case int_of_digit (hexdigit ?hi) of
                Inl e \<Rightarrow> (Some e, s3)
              | Inr n \<Rightarrow> parse_statuses
                  (parse_states (s3\<lparr>dischargeSwitchState := Some (if 8 \<le> n then 0 else 1)\<rparr>) d))"
    by blast
  have dec: "?hi < 10"
  proof (rule ccontr)
    assume "\<not> ?hi < 10"
    then have "int_of_digit (hexdigit ?hi) = Inl ValueError"
      by (simp add: int_of_digit_hexdigit nibble_bounds)
    with full have "fst (parse_battery_info_func s' d) = Some ValueError" by simp
    with assms eq show False by simp
  qed
  then have "int_of_digit (hexdigit ?hi) = Inr (int ?hi)"
    by (simp add: int_of_digit_hexdigit nibble_bounds)
  with full have "dischargeSwitchState (snd (parse_battery_info_func s' d)) =
      Some (if 8 \<le> int ?hi then 0 else 1)"
    by simp
  with dec eq show ?thesis by simp
qed

section \<open>State of charge\<close>

lemma buf_soc200_facts:
  "\<not> checksum_mismatch buf_soc200" "length buf_soc200 = 105"
  "buf_soc200 ! 68 = 0" "buf_soc200 ! 90 = 0xC8" "buf_soc200 ! 91 = 0"
proof -
  show "\<not> checksum_mismatch buf_soc200" by code_simp
  show "length buf_soc200 = 105" "buf_soc200 ! 68 = 0" "buf_soc200 ! 90 = 0xC8"
    "buf_soc200 ! 91 = 0"
    by (simp_all add: buf_soc200_def nth_append)
qed

lemma buf_soc_max_facts:
  "length buf_soc_max = 105" "buf_soc_max ! 68 = 0" "buf_soc_max ! 90 = 0xFF"
  "buf_soc_max ! 91 = 0xFF"
  by (simp_all add: buf_soc_max_def nth_append)

lemma SOC_success:
  assumes "fst (parse_battery_info s d) = None" and "92 \<le> length d"
  shows "SOC (snd (parse_battery_info s d)) = Some (uint (d ! 90) + 256 * uint (d ! 91))"
proof -
  have "py_slice 90 92 d = [d ! 90, d ! 91]"
    using py_slice2 [of 90 d] assms(2) by simp
  then show ?thesis
    using parse_battery_info_success_fields (1) [OF assms(1)]
    by (simp add: from_bytes_big_def)
qed

theorem C4_counterexample:
  "fst (parse_battery_info new_BatteryInfo buf_soc200) = None \<and>
   SOC (snd (parse_battery_info new_BatteryInfo buf_soc200)) = Some 200 \<and>
   \<not> (200 :: int) \<le> 100"
proof -
  have ok: "fst (parse_battery_info new_BatteryInfo buf_soc200) = None"
    by (simp add: fst_parse_battery_info_iff buf_soc200_facts)
  from SOC_success [OF ok] show ?thesis
    using ok by (simp add: buf_soc200_facts)
qed

text \<open>
  Claim C4, as the code has it. The decoded state of charge is the unsigned 16-bit value
  \<open>data[90] + 256 * data[91]\<close>, whatever it is: it lies between 0 and 65535, and nothing
  limits it to 100.
\<close>

theorem C4_SOC_is_raw_u16:
  assumes "fst (parse_battery_info self data) = None" and "92 \<le> length data"
  shows "SOC (snd (parse_battery_info self data)) =
           Some (uint (data ! 90) + 256 * uint (data ! 91)) \<and>
         0 \<le> uint (data ! 90) + 256 * uint (data ! 91) \<and>
         uint (data ! 90) + 256 * uint (data ! 91) \<le> 65535"
proof -
  have "uint (data ! 90) < 2 ^ LENGTH(8)" "uint (data ! 91) < 2 ^ LENGTH(8)"
    by (rule unsigned_less)+
  then have "uint (data ! 90) + 256 * uint (data ! 91) \<le> 65535" by simp
  moreover have "0 \<le> uint (data ! 90) + 256 * uint (data ! 91)" by simp
  ultimately show ?thesis using SOC_success [OF assms] by simp
qed

theorem C4_SOC_is_raw_u16_witness:
  "fst (parse_battery_info new_BatteryInfo buf_soc_max) = None \<and> 92 \<le> length buf_soc_max \<and>
   SOC (snd (parse_battery_info new_BatteryInfo buf_soc_max)) = Some 65535"
proof -
  have ok: "fst (parse_battery_info new_BatteryInfo buf_soc_max) = None"
    by (simp add: fst_parse_battery_info_iff buf_soc_max_facts)
  have len: "92 \<le> length buf_soc_max" by (simp add: buf_soc_max_facts)
  from C4_SOC_is_raw_u16 [OF ok len] ok len show ?thesis
    by (simp add: buf_soc_max_facts)
qed

section \<open>Power\<close>

lemma buf_watt_fields:
  "length buf_watt = 105"
  "from_bytes_big (rev (py_slice 12 16 buf_watt)) = 4500"
  "from_bytes_big_signed (rev (py_slice 48 52 buf_watt)) = 1"
  by code_simp+

lemma two_stage_power_4500:
  "py_round (py_fdiv (py_round (py_truediv (4500 * 1) 10000) 1) 100) 2 =
     5764607523034235 / 576460752303423488"
  by code_simp

lemma one_stage_power_4500: "py_round (py_truediv (4500 * 1) 1000000) 2 = 0"
  by code_simp

text \<open>
  Claim C9. Once the buffer holds the voltage and current fields, the \<^verbatim>\<open>watt\<close> attribute
  is \<^verbatim>\<open>round(round((voltage * current) / 10000, 1) / 100, 2)\<close> on the decoded voltage
  (mV) and the signed raw current (mA), each operation rounding to a float as Python
  does. The witness, 4500 mV and 1 mA, gives the float 0.01, where the single division
  \<^verbatim>\<open>round(4500 / 1000000, 2)\<close> gives 0.
\<close>

theorem C9_power_two_stage:
  assumes "52 \<le> length data"
  shows "watt (snd (parse_battery_info self data)) =
           Some (py_round (py_fdiv (py_round (py_truediv
             (from_bytes_big (rev (py_slice 12 16 data)) *
              from_bytes_big_signed (rev (py_slice 48 52 data))) 10000) 1) 100) 2)"
  using assms by (simp add: watt_parse_battery_info)

theorem C9_power_two_stage_witness:
  "52 \<le> length buf_watt \<and>
   watt (snd (parse_battery_info new_BatteryInfo buf_watt)) =
     Some (5764607523034235 / 576460752303423488) \<and>
   py_round (py_truediv (4500 * 1) 1000000) 2 = 0"
proof -
  have len: "52 \<le> length buf_watt" by (simp add: buf_watt_fields)
  have "watt (snd (parse_battery_info new_BatteryInfo buf_watt)) =
      Some (5764607523034235 / 576460752303423488)"
    using C9_power_two_stage [OF len, of new_BatteryInfo]
    by (simp only: buf_watt_fields two_stage_power_4500)
  with len one_stage_power_4500 show ?thesis by blast
qed

section \<open>The cell-voltage dictionary\<close>

lemma map_of_dict_set: "map_of (dict_set d k v) = (map_of d)(k \<mapsto> v)"
  by (induction d) (auto simp: fun_upd_twist)


lemma cells_loop_keeps_keys:
  "map_of pack c = Some v \<Longrightarrow> \<exists>v'. map_of (snd (cells_loop bp es pack)) c = Some v'"
proof (induction es arbitrary: pack v)
  case Nil
  then show ?case by simp
next
  case (Cons e es)
  obtain key dt where e: "e = (key, dt)" by (cases e)
  let ?c = "int (key div 2 + 1)"
  let ?v = "py_truediv (from_bytes_big [bp ! (key + 1), dt]) 1000"
  have upd: "\<exists>v'. map_of (dict_set pack ?c ?v) c = Some v'"
    using Cons.prems by (simp add: map_of_dict_set)
  from Cons.IH [OF Cons.prems] obtain v1 where
    1: "map_of (snd (cells_loop bp es pack)) c = Some v1" by blast
  from upd obtain v0 where "map_of (dict_set pack ?c ?v) c = Some v0" by blast
  from Cons.IH [OF this] obtain v2 where
    2: "map_of (snd (cells_loop bp es (dict_set pack ?c ?v))) c = Some v2" by blast
  show ?case
    using 1 2 Cons.prems by (simp add: e Let_def)
qed

lemma cells_loop_fold:
  assumes "\<forall>(key, dt) \<in> set es. even key \<longrightarrow> key + 1 < length bp"
  shows "cells_loop bp es pack =
           (None, fold (\<lambda>(c, v) d. dict_set d c v) (cell_updates bp es) pack)"
  using assms
proof (induction es arbitrary: pack)
  case Nil
  then show ?case by (simp add: cell_updates_def)
next
  case (Cons e es)
  obtain key dt where e: "e = (key, dt)" by (cases e)
  from Cons.prems have rest: "\<forall>(key, dt) \<in> set es. even key \<longrightarrow> key + 1 < length bp"
    by simp
  from Cons.prems e have here: "even key \<longrightarrow> key + 1 < length bp" by simp
  show ?case
    using here
    by (auto simp: e Cons.IH [OF rest] cell_updates_def Let_def odd_iff_mod_2_eq_one)
qed

lemma map_of_fold_dict_set:
  assumes "distinct (map fst us)"
  shows "map_of (fold (\<lambda>(c, v) d. dict_set d c v) us pack) c =
           (case map_of us c of Some v \<Rightarrow> Some v | None \<Rightarrow> map_of pack c)"
  using assms
proof (induction us arbitrary: pack)
  case Nil
  then show ?case by simp
next
  case (Cons u us)
  obtain c' v' where u: "u = (c', v')" by (cases u)
  from Cons.prems u have d: "distinct (map fst us)" and new: "c' \<notin> fst ` set us" by auto
  from new have "map_of us c' = None" by (simp add: map_of_eq_None_iff)
  then show ?case
    by (simp add: u Cons.IH [OF d] map_of_dict_set split: option.splits)
qed


lemma cell_updates_keys_sorted:
  "sorted_wrt (<) (map fst (cell_updates bp (enumerate n xs)))"
proof -
  let ?P = "\<lambda>(key, dt). even key \<and> from_bytes_big [bp ! (key + 1), dt] \<noteq> 0"
  let ?es = "enumerate n xs"
  have "sorted_wrt (<) (map fst ?es)" by simp
  then have "sorted_wrt (\<lambda>x y. fst x < fst y) ?es"
    by (simp only: sorted_wrt_map)
  then have "sorted_wrt (\<lambda>x y. fst x < fst y) (filter ?P ?es)"
    by (rule sorted_wrt_filter)
  then have "sorted_wrt (\<lambda>x y. int (fst x div 2 + 1) < int (fst y div 2 + 1)) (filter ?P ?es)"
  proof (rule sorted_wrt_mono_rel [rotated])
    fix x y :: "nat \<times> byte"
    assume "x \<in> set (filter ?P ?es)" "y \<in> set (filter ?P ?es)" "fst x < fst y"
    then have "even (fst x)" "even (fst y)" "fst x < fst y" by auto
    then have "fst x div 2 < fst y div 2" by (auto elim!: evenE)
    then show "int (fst x div 2 + 1) < int (fst y div 2 + 1)" by simp
  qed
  moreover have "map fst (cell_updates bp ?es) =
      map (\<lambda>x. int (fst x div 2 + 1)) (filter ?P ?es)"
    by (simp add: cell_updates_def case_prod_unfold comp_def)
  ultimately show ?thesis by (simp add: sorted_wrt_map)
qed

lemma cell_updates_distinct: "distinct (map fst (cell_updates bp (enumerate n xs)))"
  using cell_updates_keys_sorted [of bp n xs] by (simp add: strict_sorted_iff)

lemma cell_updates_member:
  "(c, v) \<in> set (cell_updates bp (enumerate 0 bp)) \<longleftrightarrow>
     (\<exists>key < length bp. even key \<and> from_bytes_big [bp ! (key + 1), bp ! key] \<noteq> 0 \<and>
        c = int (key div 2 + 1) \<and>
        v = py_truediv (from_bytes_big [bp ! (key + 1), bp ! key]) 1000)"
  by (auto simp: cell_updates_def in_set_enumerate_eq image_iff)

lemma map_of_cell_updates:
  assumes "2 * k + 1 < length bp"
  shows "map_of (cell_updates bp (enumerate 0 bp)) (int k + 1) =
           (if from_bytes_big [bp ! (2 * k + 1), bp ! (2 * k)] \<noteq> 0
            then Some (py_truediv (from_bytes_big [bp ! (2 * k + 1), bp ! (2 * k)]) 1000)
            else None)"
proof (cases "from_bytes_big [bp ! (2 * k + 1), bp ! (2 * k)] = 0")
  case False
  have "(int k + 1, py_truediv (from_bytes_big [bp ! (2 * k + 1), bp ! (2 * k)]) 1000)
      \<in> set (cell_updates bp (enumerate 0 bp))"
    unfolding cell_updates_member
    using assms False by (intro exI [of _ "2 * k"]) simp
  then show ?thesis
    using False by (simp add: cell_updates_distinct)
next
  case True
  have "int k + 1 \<notin> fst ` set (cell_updates bp (enumerate 0 bp))"
  proof
    assume "int k + 1 \<in> fst ` set (cell_updates bp (enumerate 0 bp))"
    then obtain v where "(int k + 1, v) \<in> set (cell_updates bp (enumerate 0 bp))" by auto
    then obtain key where key: "even key" "from_bytes_big [bp ! (key + 1), bp ! key] \<noteq> 0"
      "int k + 1 = int (key div 2 + 1)"
      unfolding cell_updates_member by blast
    from key(1,3) have "key = 2 * k" by (auto elim!: evenE)
    with key(2) True show False by simp
  qed
  then show ?thesis using True by (simp add: map_of_eq_None_iff)
qed


lemma cells_of_full_buffer:
  assumes "48 \<le> length d"
  shows "batteryPack (snd (parse_battery_info s d)) =
           fold (\<lambda>(c, v) d. dict_set d c v)
             (cell_updates (py_slice 16 48 d) (enumerate 0 (py_slice 16 48 d))) (batteryPack s)"
proof -
  let ?bp = "py_slice 16 48 d"
  from assms have "even (length ?bp)" by (simp add: length_py_slice)
  then have "\<forall>(key, dt) \<in> set (enumerate 0 ?bp). even key \<longrightarrow> key + 1 < length ?bp"
    by (rule enumerate_even_in_range)
  then show ?thesis
    by (simp add: batteryPack_parse_battery_info cells_loop_fold)
qed

lemma cell_reading:
  assumes "48 \<le> length d" and "k < 16"
  shows "py_slice 16 48 d ! (2 * k + 1) = d ! (16 + 2 * k + 1)"
    and "py_slice 16 48 d ! (2 * k) = d ! (16 + 2 * k)"
  using assms by (simp_all add: py_slice_nth)

lemma batteryPack_after_parse:
  assumes "48 \<le> length d" and "k < 16"
  shows "map_of (batteryPack (snd (parse_battery_info s d))) (int k + 1) =
           (if from_bytes_big [d ! (16 + 2 * k + 1), d ! (16 + 2 * k)] \<noteq> 0
            then Some (py_truediv (from_bytes_big [d ! (16 + 2 * k + 1), d ! (16 + 2 * k)]) 1000)
            else map_of (batteryPack s) (int k + 1))"
proof -
  let ?bp = "py_slice 16 48 d"
  let ?raw = "from_bytes_big [d ! (16 + 2 * k + 1), d ! (16 + 2 * k)]"
  from assms have "2 * k + 1 < length ?bp" by (simp add: length_py_slice)
  from map_of_cell_updates [OF this] have m:
    "map_of (cell_updates ?bp (enumerate 0 ?bp)) (int k + 1) =
       (if ?raw \<noteq> 0 then Some (py_truediv ?raw 1000) else None)"
    unfolding cell_reading [OF assms] .
  have "map_of (batteryPack (snd (parse_battery_info s d))) (int k + 1) =
      (case map_of (cell_updates ?bp (enumerate 0 ?bp)) (int k + 1) of
         Some v \<Rightarrow> Some v | None \<Rightarrow> map_of (batteryPack s) (int k + 1))"
    unfolding cells_of_full_buffer [OF assms(1)]
    by (rule map_of_fold_dict_set [OF cell_updates_distinct])
  also have "\<dots> = (if ?raw \<noteq> 0 then Some (py_truediv ?raw 1000)
      else map_of (batteryPack s) (int k + 1))"
    unfolding m by (cases "?raw = 0") simp_all
  finally show ?thesis .
qed



lemma buf_cells_facts:
  "length buf_cells = 105" "buf_cells ! 16 = 0xF8" "buf_cells ! 17 = 0x0C"
  "buf_cells ! 24 = 0" "buf_cells ! 25 = 0"
  by (simp_all add: buf_cells_def nth_append)

lemma raw_3320: "from_bytes_big [0x0C, 0xF8] = 3320" "from_bytes_big [0, 0] = 0"
  by (simp_all add: from_bytes_big_def)


text \<open>
  Claim C10. A call of \<^verbatim>\<open>parse_battery_info\<close> never takes a key out of
  \<^verbatim>\<open>batteryPack\<close>, whether it returns or raises: a cell that is in the dictionary before
  the call (for instance from an earlier call) is in it afterwards; and when the buffer
  holds the cell bytes and the raw reading of that cell is zero, the cell keeps the value
  it had.
\<close>

theorem C10_cells_never_removed:
  assumes "map_of (batteryPack self) cell = Some v"
  shows "(\<exists>v'. map_of (batteryPack (snd (parse_battery_info self data))) cell = Some v') \<and>
         (\<forall>k < 16. 48 \<le> length data \<longrightarrow> cell = int k + 1 \<longrightarrow>
            from_bytes_big [data ! (16 + 2 * k + 1), data ! (16 + 2 * k)] = 0 \<longrightarrow>
            map_of (batteryPack (snd (parse_battery_info self data))) cell = Some v)"
proof (intro conjI allI impI)
  show "\<exists>v'. map_of (batteryPack (snd (parse_battery_info self data))) cell = Some v'"
    using cells_loop_keeps_keys [OF assms] by (simp add: batteryPack_parse_battery_info)
next
  fix k :: nat
  assume "k < 16" "48 \<le> length data" "cell = int k + 1"
    "from_bytes_big [data ! (16 + 2 * k + 1), data ! (16 + 2 * k)] = 0"
  then show "map_of (batteryPack (snd (parse_battery_info self data))) cell = Some v"
    using assms by (simp add: batteryPack_after_parse)
qed

lemma buf_short_cell1:
  "48 \<le> length buf_short" "from_bytes_big [buf_short ! (16 + 2 * 0 + 1), buf_short ! (16 + 2 * 0)] = 0"
  by (simp_all add: buf_short_def from_bytes_big_def)

theorem C10_cells_never_removed_witness:
  "map_of (batteryPack (snd (parse_battery_info new_BatteryInfo buf_cells))) 1 =
     Some (py_truediv 3320 1000) \<and>
   map_of (batteryPack (snd (parse_battery_info
     (snd (parse_battery_info new_BatteryInfo buf_cells)) buf_short))) 1 =
     Some (py_truediv 3320 1000) \<and>
   map_of (batteryPack (snd (parse_battery_info
     (snd (parse_battery_info new_BatteryInfo buf_cells)) []))) 1 \<noteq> None"
proof -
  let ?s1 = "snd (parse_battery_info new_BatteryInfo buf_cells)"
  have first: "map_of (batteryPack ?s1) 1 = Some (py_truediv 3320 1000)"
    using batteryPack_after_parse [of buf_cells 0 new_BatteryInfo]
    by (simp add: buf_cells_facts raw_3320)
  from C10_cells_never_removed [OF first, of buf_short] have
    "\<forall>k < 16. 48 \<le> length buf_short \<longrightarrow> (1 :: int) = int k + 1 \<longrightarrow>
       from_bytes_big [buf_short ! (16 + 2 * k + 1), buf_short ! (16 + 2 * k)] = 0 \<longrightarrow>
       map_of (batteryPack (snd (parse_battery_info ?s1 buf_short))) 1 =
         Some (py_truediv 3320 1000)"
    by blast
  from this [rule_format, of 0] have second:
    "map_of (batteryPack (snd (parse_battery_info ?s1 buf_short))) 1 =
       Some (py_truediv 3320 1000)"
    using buf_short_cell1 by simp
  from C10_cells_never_removed [OF first, of "[]"] have third:
    "map_of (batteryPack (snd (parse_battery_info ?s1 []))) 1 \<noteq> None"
    by auto
  from first second third show ?thesis by blast
qed

end
